theory Spec2Isabelle
  imports Complex_Main
begin

section \<open>Data model of \<open>neai_format.py\<close>\<close>

text \<open>
  The module-level parameters (lines 19-30) are gathered in one record. A column selector
  is either an integer (a 1-based column number) or a label. \<open>LINES_TO_BUILD\<close> is either an
  integer or something else (the string \<open>'ALL'\<close>); only \<open>isinstance(LINES_TO_BUILD, int)\<close>
  is ever tested, so every non-integer value is \<open>AllLines\<close>.
  \<open>INPUT_FILE_HAS_HEADERS\<close> is a \<open>bool\<close> here, which is what line 98 insists on.
\<close>

datatype selector = ColInt int | ColLabel string

datatype lines_limit = AllLines | Lines int

record config =
  value_delimiter :: string
  decimal_delimiter :: string
  has_headers :: bool
  columns_to_keep :: "selector list"
  buffer_size :: int
  downsample_factor :: int
  lines_to_build :: lines_limit

text \<open>
  Python's \<open>float(s)\<close> and \<open>str(x)\<close> on a float are builtins of the language, not code of
  this module. They are parameters of the model: \<open>py_float\<close> returns \<open>None\<close> where
  \<open>float\<close> raises \<open>ValueError\<close>.
\<close>

record 'f builtins =
  py_float :: "string \<Rightarrow> 'f option"
  py_str :: "'f \<Rightarrow> string"

text \<open>
  Every \<open>exit_on_error\<close> call of the module is one constructor, carrying the values its
  message interpolates. The last four constructors are Python exceptions that the module
  does not catch.
\<close>

datatype hint = HeadersHint | DelimitersHint | NoHint

datatype error =
    DelimitersEqual
  | ColumnsToKeepUnset
  | LabelsWithoutHeaders
  | LabelNotFound selector
  | NotEnoughValues int int nat "string list" bool
  | CannotConvert string string "int option" hint
  | PyValueError
  | PyZeroDivisionError
  | PyIndexError
  | PyAttributeError

text \<open>The error kinds under which section 7 of the specification files these messages.\<close>

datatype error_kind = ConfigurationError | LookupError | DataFormatError | UncaughtException

fun kind_of :: "error \<Rightarrow> error_kind" where
  "kind_of DelimitersEqual = ConfigurationError"
| "kind_of ColumnsToKeepUnset = ConfigurationError"
| "kind_of LabelsWithoutHeaders = ConfigurationError"
| "kind_of (LabelNotFound _) = LookupError"
| "kind_of (NotEnoughValues _ _ _ _ _) = DataFormatError"
| "kind_of (CannotConvert _ _ _ _) = DataFormatError"
| "kind_of PyValueError = UncaughtException"
| "kind_of PyZeroDivisionError = UncaughtException"
| "kind_of PyIndexError = UncaughtException"
| "kind_of PyAttributeError = UncaughtException"

section \<open>String operations of Python used by the module\<close>

definition LF :: char where "LF = CHR 0x0A"
definition CR :: char where "CR = CHR 0x0D"

definition rstrip :: "char \<Rightarrow> string \<Rightarrow> string" where
  "rstrip c s = rev (dropWhile (\<lambda>x. x = c) (rev s))"

definition startswith :: "string \<Rightarrow> string \<Rightarrow> bool" where
  "startswith s p = (take (length p) s = p)"

text \<open>\<open>s.split(sep)\<close>: fields between non-overlapping occurrences of \<open>sep\<close>, found left to right;
  an empty separator raises \<open>ValueError\<close>.\<close>

function split_str :: "string \<Rightarrow> string \<Rightarrow> string \<Rightarrow> string list" where
  "split_str sep cur [] = [cur]"
| "split_str sep cur (c # cs) =
     (if sep \<noteq> [] \<and> startswith (c # cs) sep
      then cur # split_str sep [] (drop (length sep) (c # cs))
      else split_str sep (cur @ [c]) cs)"
  by pat_completeness auto
termination
  by (relation "measure (\<lambda>(sep, cur, s). length s)") auto

definition py_split :: "string \<Rightarrow> string \<Rightarrow> error + string list" where
  "py_split s sep = (if sep = [] then Inl PyValueError else Inr (split_str sep [] s))"

text \<open>\<open>s.replace(old, new)\<close>: every non-overlapping occurrence, left to right; an empty
  \<open>old\<close> matches before every character and at the end.\<close>

function replace_str :: "string \<Rightarrow> string \<Rightarrow> string \<Rightarrow> string" where
  "replace_str old new [] = []"
| "replace_str old new (c # cs) =
     (if old \<noteq> [] \<and> startswith (c # cs) old
      then new @ replace_str old new (drop (length old) (c # cs))
      else c # replace_str old new cs)"
  by pat_completeness auto
termination
  by (relation "measure (\<lambda>(old, new, s). length s)") auto

definition py_replace :: "string \<Rightarrow> string \<Rightarrow> string \<Rightarrow> string" where
  "py_replace s old new =
     (if old = [] then new @ concat (map (\<lambda>c. c # new) s) else replace_str old new s)"

text \<open>\<open>sep.join(xs)\<close>.\<close>

fun join_str :: "string \<Rightarrow> string list \<Rightarrow> string" where
  "join_str sep [] = []"
| "join_str sep [x] = x"
| "join_str sep (x # y # ys) = x @ sep @ join_str sep (y # ys)"

text \<open>\<open>xs[i]\<close>: a negative index counts from the end, an index outside the list raises
  \<open>IndexError\<close>.\<close>

definition py_index :: "'a list \<Rightarrow> int \<Rightarrow> error + 'a" where
  "py_index xs i =
     (if 0 \<le> i \<and> i < int (length xs) then Inr (xs ! nat i)
      else if i < 0 \<and> - i \<le> int (length xs) then Inr (xs ! nat (int (length xs) + i))
      else Inl PyIndexError)"

text \<open>\<open>xs.index(x)\<close>: the first position holding \<open>x\<close>; \<open>None\<close> where Python raises
  \<open>ValueError\<close>.\<close>

fun index_of :: "'a list \<Rightarrow> 'a \<Rightarrow> nat option" where
  "index_of [] x = None"
| "index_of (y # ys) x = (if y = x then Some 0 else map_option Suc (index_of ys x))"

section \<open>The functions of the module\<close>

text \<open>\<open>read_values_of_line\<close>, lines 58-68.\<close>

definition read_values_of_line :: "config \<Rightarrow> string \<Rightarrow> error + string list" where
  "read_values_of_line cfg line =
     (if value_delimiter cfg = decimal_delimiter cfg then Inl DelimitersEqual
      else py_split (rstrip CR (rstrip LF line)) (value_delimiter cfg))"

text \<open>\<open>convert_to_float\<close>, lines 71-89. \<open>line_number\<close> is \<open>None\<close> when the caller leaves it out.\<close>

definition convert_to_float ::
  "'f builtins \<Rightarrow> config \<Rightarrow> string \<Rightarrow> int option \<Rightarrow> bool \<Rightarrow> error + 'f" where
  "convert_to_float bi cfg value_str line_number raise_error =
     (let float_str = py_replace value_str (decimal_delimiter cfg) ''.'' in
      case py_float bi float_str of
        Some x \<Rightarrow> Inr x
      | None \<Rightarrow>
          if raise_error then Inl PyValueError
          else if line_number = Some 1 \<and> \<not> has_headers cfg
            then Inl (CannotConvert float_str value_str line_number HeadersHint)
          else if line_number = Some 2 \<and> has_headers cfg
            then Inl (CannotConvert float_str value_str line_number DelimitersHint)
          else Inl (CannotConvert float_str value_str line_number NoHint))"

text \<open>
  \<open>get_headers\<close>, lines 96-118. The file is the list of its lines still to be read;
  \<open>readline\<close> gives the empty string at the end of the file. The result is the headers,
  the rest of the file, and whether the warning of line 115 was logged.
\<close>

definition get_headers ::
  "'f builtins \<Rightarrow> config \<Rightarrow> string list \<Rightarrow> error + (string list option \<times> string list \<times> bool)" where
  "get_headers bi cfg file =
     (if \<not> has_headers cfg then Inr (None, file, False)
      else
        let first_line = (case file of [] \<Rightarrow> [] | l # _ \<Rightarrow> l);
            rest = (case file of [] \<Rightarrow> [] | _ # ls \<Rightarrow> ls)
        in case read_values_of_line cfg first_line of
             Inl e \<Rightarrow> Inl e
           | Inr first_line_values \<Rightarrow>
               (case py_index first_line_values (- 1) of
                  Inl e \<Rightarrow> Inl e
                | Inr v \<Rightarrow>
                    let headers_is_float =
                          (case convert_to_float bi cfg v None True of
                             Inl _ \<Rightarrow> False | Inr _ \<Rightarrow> True)
                    in Inr (Some first_line_values, rest, headers_is_float)))"

text \<open>
  \<open>get_columns_indexes_to_keep\<close>, lines 121-142. In the label branch every selector is
  handed to \<open>headers.index\<close>; an integer selector equals no header string.
\<close>

fun is_int :: "selector \<Rightarrow> bool" where
  "is_int (ColInt _) = True"
| "is_int (ColLabel _) = False"

fun header_index :: "string list \<Rightarrow> selector \<Rightarrow> nat option" where
  "header_index headers (ColLabel l) = index_of headers l"
| "header_index headers (ColInt n) = None"

fun resolve_labels :: "string list \<Rightarrow> selector list \<Rightarrow> int list \<Rightarrow> error + int list" where
  "resolve_labels headers [] columns_indexes = Inr columns_indexes"
| "resolve_labels headers (label # rest) columns_indexes =
     (case header_index headers label of
        None \<Rightarrow> Inl (LabelNotFound label)
      | Some i \<Rightarrow> resolve_labels headers rest (columns_indexes @ [int i]))"

fun resolve_ints :: "selector list \<Rightarrow> int list \<Rightarrow> int list" where
  "resolve_ints [] columns_indexes = columns_indexes"
| "resolve_ints (ColInt column_number # rest) columns_indexes =
     resolve_ints rest (columns_indexes @ [column_number - 1])"
| "resolve_ints (ColLabel _ # rest) columns_indexes = resolve_ints rest columns_indexes"

definition get_columns_indexes_to_keep :: "config \<Rightarrow> string list option \<Rightarrow> error + int list" where
  "get_columns_indexes_to_keep cfg headers =
     (if columns_to_keep cfg = [] then Inl ColumnsToKeepUnset
      else if list_all is_int (columns_to_keep cfg)
        then Inr (resolve_ints (columns_to_keep cfg) [])
      else if \<not> has_headers cfg then Inl LabelsWithoutHeaders
      else case headers of
             None \<Rightarrow> Inl PyAttributeError
           | Some hs \<Rightarrow> resolve_labels hs (columns_to_keep cfg) [])"

text \<open>
  \<open>create_dataset\<close>, lines 145-191. The state of the loop is the counter, the buffer and
  the content of the output file, which does not exist when the function is entered
  (line 213) and only grows by the appends of line 179.
\<close>

record state =
  nb_lines_built :: nat
  tmp_buffer :: "string list"
  output_file :: string

text \<open>The inner loop of lines 163-171 over the column indexes, on one line's values.\<close>

fun build_buffer ::
  "'f builtins \<Rightarrow> config \<Rightarrow> int \<Rightarrow> string list \<Rightarrow> int list \<Rightarrow> string list
     \<Rightarrow> error option \<times> string list" where
  "build_buffer bi cfg line_index vals [] buf = (None, buf)"
| "build_buffer bi cfg line_index vals (idx # rest) buf =
     (if int (length vals) \<le> idx
      then (Some (NotEnoughValues line_index (idx + 1) (length vals) vals (line_index \<le> 2)), buf)
      else case py_index vals idx of
             Inl e \<Rightarrow> (Some e, buf)
           | Inr v \<Rightarrow>
               (case convert_to_float bi cfg v (Some line_index) False of
                  Inl e \<Rightarrow> (Some e, buf)
                | Inr value_float \<Rightarrow>
                    build_buffer bi cfg line_index vals rest (buf @ [py_str bi value_float])))"

text \<open>
  The test of line 174 divides two lengths with Python's true division and compares the
  quotient with \<open>BUFFER_SIZE\<close>; the quotient is taken exactly here (the two agree as long
  as the buffer holds fewer than \<open>2^53\<close> values).
\<close>

definition buffer_complete :: "string list \<Rightarrow> int list \<Rightarrow> int \<Rightarrow> bool" where
  "buffer_complete buf columns_indexes bsize =
     (real (length buf) / real (length columns_indexes) = real_of_int bsize)"

definition limit_reached :: "lines_limit \<Rightarrow> nat \<Rightarrow> bool" where
  "limit_reached ltb nb = (case ltb of AllLines \<Rightarrow> False | Lines l \<Rightarrow> int nb \<ge> l)"

text \<open>
  The body of the loop after the test of line 154. \<open>build_phase\<close> is lines 161-171:
  the modulo by a zero factor raises \<open>ZeroDivisionError\<close>. \<open>flush_phase\<close> is lines
  173-182; the progress output of lines 184-186 is left out.
\<close>

definition build_phase ::
  "'f builtins \<Rightarrow> config \<Rightarrow> int list \<Rightarrow> int \<Rightarrow> string list \<Rightarrow> string list
     \<Rightarrow> error option \<times> string list" where
  "build_phase bi cfg columns_indexes line_index vals buf =
     (if downsample_factor cfg = 0 then (Some PyZeroDivisionError, buf)
      else if line_index mod downsample_factor cfg = 0
        then build_buffer bi cfg line_index vals columns_indexes buf
      else (None, buf))"

definition flush_phase :: "config \<Rightarrow> int list \<Rightarrow> string list \<Rightarrow> state \<Rightarrow> error option \<times> state" where
  "flush_phase cfg columns_indexes buf st =
     (if columns_indexes = [] then (Some PyZeroDivisionError, st\<lparr>tmp_buffer := buf\<rparr>)
      else if buffer_complete buf columns_indexes (buffer_size cfg)
        then (None,
              \<lparr>nb_lines_built = nb_lines_built st + 1,
               tmp_buffer = [],
               output_file =
                 (output_file st @ (if nb_lines_built st > 0 then [LF] else []))
                   @ join_str '','' buf\<rparr>)
      else (None, st\<lparr>tmp_buffer := buf\<rparr>))"

definition process_line ::
  "'f builtins \<Rightarrow> config \<Rightarrow> int list \<Rightarrow> int \<Rightarrow> string \<Rightarrow> state \<Rightarrow> error option \<times> state" where
  "process_line bi cfg columns_indexes line_index line st =
     (case read_values_of_line cfg line of
        Inl e \<Rightarrow> (Some e, st)
      | Inr vals \<Rightarrow>
          (case build_phase bi cfg columns_indexes line_index vals (tmp_buffer st) of
             (Some e, buf) \<Rightarrow> (Some e, st\<lparr>tmp_buffer := buf\<rparr>)
           | (None, buf) \<Rightarrow> flush_phase cfg columns_indexes buf st))"

text \<open>The \<open>for\<close> loop of line 151, with the \<open>break\<close> of lines 154-155.\<close>

fun dataset_loop ::
  "'f builtins \<Rightarrow> config \<Rightarrow> int list \<Rightarrow> int \<Rightarrow> string list \<Rightarrow> state \<Rightarrow> error option \<times> state" where
  "dataset_loop bi cfg columns_indexes line_index [] st = (None, st)"
| "dataset_loop bi cfg columns_indexes line_index (line # rest) st =
     (if limit_reached (lines_to_build cfg) (nb_lines_built st) then (None, st)
      else case process_line bi cfg columns_indexes line_index line st of
             (Some e, st') \<Rightarrow> (Some e, st')
           | (None, st') \<Rightarrow> dataset_loop bi cfg columns_indexes (line_index + 1) rest st')"

definition initial_state :: state where
  "initial_state = \<lparr>nb_lines_built = 0, tmp_buffer = [], output_file = []\<rparr>"

definition create_dataset ::
  "'f builtins \<Rightarrow> config \<Rightarrow> string list \<Rightarrow> int list \<Rightarrow> error option \<times> state" where
  "create_dataset bi cfg input_file_reader columns_indexes =
     dataset_loop bi cfg columns_indexes (of_bool (has_headers cfg) + 1)
       input_file_reader initial_state"

text \<open>The main sequence from line 217 on, once both paths have passed their checks.\<close>

definition main_sequence :: "'f builtins \<Rightarrow> config \<Rightarrow> string list \<Rightarrow> error option \<times> state" where
  "main_sequence bi cfg input_file =
     (case get_headers bi cfg input_file of
        Inl e \<Rightarrow> (Some e, initial_state)
      | Inr (headers, rest, warned) \<Rightarrow>
          (case get_columns_indexes_to_keep cfg headers of
             Inl e \<Rightarrow> (Some e, initial_state)
           | Inr columns_indexes_to_keep \<Rightarrow> create_dataset bi cfg rest columns_indexes_to_keep))"


section \<open>The messages of \<open>exit_on_error\<close>\<close>

text \<open>\<open>str\<close> on an integer, \<open>format_list\<close> (lines 92-93) and the text each
  \<open>exit_on_error\<close> call logs; an uncaught exception has no such message.\<close>

fun digits :: "nat \<Rightarrow> string" where
  "digits n =
     (if n < 10 then [''0123456789'' ! n]
      else digits (n div 10) @ [''0123456789'' ! (n mod 10)])"

declare digits.simps [simp del]

definition str_int :: "int \<Rightarrow> string" where
  "str_int i = (if i < 0 then CHR ''-'' # digits (nat (- i)) else digits (nat i))"

definition format_list :: "string list \<Rightarrow> string" where
  "format_list list_to_format =
     join_str ''  ''
       (map (\<lambda>(val_idx, val). str_int (int val_idx + 1) @ '': '' @ val)
          (enumerate 0 list_to_format))"

fun str_selector :: "selector \<Rightarrow> string" where
  "str_selector (ColInt n) = str_int n"
| "str_selector (ColLabel l) = l"

definition delimiters_advice :: string where
  "delimiters_advice =
     ''Please check INPUT_FILE_VALUE_DELIMITER and INPUT_FILE_DECIMAL_DELIMITER.''"

fun exit_message :: "error \<Rightarrow> string option" where
  "exit_message DelimitersEqual =
     Some (''Input file value delimiter and decimal delimiter are equal. ''
           @ ''Please set INPUT_FILE_VALUE_DELIMITER and INPUT_FILE_DECIMAL_DELIMITER.'')"
| "exit_message ColumnsToKeepUnset = Some ''Please set parameter COLUMNS_TO_KEEP''"
| "exit_message LabelsWithoutHeaders =
     Some (''Your file has no headers (parameter INPUT_FILE_HAS_HEADERS is False) ''
           @ ''and COLUMNS_TO_KEEP contains column labels'')"
| "exit_message (LabelNotFound label) =
     Some (''Column label '' @ [CHR 0x22] @ str_selector label @ [CHR 0x22]
           @ '' cannot be found in input file headers'')"
| "exit_message (NotEnoughValues line_index column_number nb_values vals near_top) =
     Some (''Line '' @ str_int line_index
           @ '' does not contain enough values. Looking for columns number ''
           @ str_int column_number @ '' and only '' @ str_int (int nb_values)
           @ '' columns / '' @ format_list vals
           @ (if near_top
              then [LF] @ ''       It may be because values delimiter is not correctly set. ''
                   @ delimiters_advice
              else []))"
| "exit_message (CannotConvert float_str value_str line_number h) =
     Some (''Cannot convert '' @ float_str @ '' to float. Original value is '' @ value_str
           @ '' at line '' @ (case line_number of None \<Rightarrow> ''None'' | Some n \<Rightarrow> str_int n)
           @ ''.''
           @ (case h of
                HeadersHint \<Rightarrow>
                  '' '' @ [LF]
                  @ ''       It may be because your input file has headers. ''
                  @ ''In that case please set INPUT_FILE_HAS_HEADERS to True.'' @ [LF]
                  @ ''       Or it may be because values and decimal delimiters ''
                  @ ''are not correctly set. '' @ delimiters_advice
              | DelimitersHint \<Rightarrow>
                  '' '' @ [LF]
                  @ ''       It may be because value and decimal delimiters ''
                  @ ''are not correctly set. '' @ delimiters_advice
              | NoHint \<Rightarrow> []))"
| "exit_message PyValueError = None"
| "exit_message PyZeroDivisionError = None"
| "exit_message PyIndexError = None"
| "exit_message PyAttributeError = None"

section \<open>What a run is expected to write\<close>

text \<open>
  The definitions of this section are not code of the module: they describe, from the input
  alone, the values a run buffers and the rows it writes, and the theorems below compare
  the module's functions with them.
\<close>

text \<open>The fields of a line, and the text buffered for one column of it.\<close>

definition fields :: "config \<Rightarrow> string \<Rightarrow> string list" where
  "fields cfg line = (case read_values_of_line cfg line of Inl _ \<Rightarrow> [] | Inr vals \<Rightarrow> vals)"

definition cell :: "'f builtins \<Rightarrow> config \<Rightarrow> string list \<Rightarrow> int \<Rightarrow> string" where
  "cell bi cfg vals idx =
     (case py_index vals idx of
        Inl _ \<Rightarrow> []
      | Inr v \<Rightarrow>
          (case py_float bi (py_replace v (decimal_delimiter cfg) ''.'') of
             None \<Rightarrow> []
           | Some x \<Rightarrow> py_str bi x))"

definition line_cells :: "'f builtins \<Rightarrow> config \<Rightarrow> int list \<Rightarrow> string \<Rightarrow> string list" where
  "line_cells bi cfg columns_indexes line = map (cell bi cfg (fields cfg line)) columns_indexes"

text \<open>The lines whose index is a multiple of the downsample factor, the first line of the
  list having index \<open>line_index\<close>.\<close>

fun sampled :: "config \<Rightarrow> int \<Rightarrow> string list \<Rightarrow> string list" where
  "sampled cfg line_index [] = []"
| "sampled cfg line_index (line # rest) =
     (if line_index mod downsample_factor cfg = 0 then [line] else [])
       @ sampled cfg (line_index + 1) rest"

definition value_stream :: "'f builtins \<Rightarrow> config \<Rightarrow> int list \<Rightarrow> int \<Rightarrow> string list \<Rightarrow> string list" where
  "value_stream bi cfg columns_indexes line_index file_lines =
     concat (map (line_cells bi cfg columns_indexes) (sampled cfg line_index file_lines))"

text \<open>The complete blocks of \<open>n\<close> consecutive elements of a list.\<close>

function windows :: "nat \<Rightarrow> 'a list \<Rightarrow> 'a list list" where
  "windows n xs = (if n = 0 \<or> length xs < n then [] else take n xs # windows n (drop n xs))"
  by pat_completeness auto
termination
  by (relation "measure (\<lambda>(n, xs). length xs)") auto

declare windows.simps [simp del]

definition threshold :: "config \<Rightarrow> int list \<Rightarrow> nat" where
  "threshold cfg columns_indexes = length columns_indexes * nat (buffer_size cfg)"

text \<open>The rows still allowed once \<open>nb\<close> rows are written.\<close>

definition limit_take :: "lines_limit \<Rightarrow> nat \<Rightarrow> 'a list \<Rightarrow> 'a list" where
  "limit_take ltb nb rows =
     (case ltb of AllLines \<Rightarrow> rows | Lines l \<Rightarrow> take (nat (l - int nb)) rows)"

definition render :: "string list list \<Rightarrow> string" where
  "render rows = join_str [LF] (map (join_str '','') rows)"

definition start_index :: "config \<Rightarrow> int" where
  "start_index cfg = of_bool (has_headers cfg) + 1"

definition emitted_rows :: "'f builtins \<Rightarrow> config \<Rightarrow> int list \<Rightarrow> string list \<Rightarrow> string list list" where
  "emitted_rows bi cfg columns_indexes file_lines =
     limit_take (lines_to_build cfg) 0
       (windows (threshold cfg columns_indexes)
          (value_stream bi cfg columns_indexes (start_index cfg) file_lines))"


fun write_rows :: "string \<Rightarrow> nat \<Rightarrow> string list list \<Rightarrow> string" where
  "write_rows out nb [] = out"
| "write_rows out nb (r # rs) =
     write_rows ((out @ (if nb > 0 then [LF] else [])) @ join_str '','' r) (Suc nb) rs"

text \<open>The rows a loop started in state \<open>st\<close> still writes.\<close>

definition loop_rows ::
  "'f builtins \<Rightarrow> config \<Rightarrow> int list \<Rightarrow> int \<Rightarrow> string list \<Rightarrow> state \<Rightarrow> string list list" where
  "loop_rows bi cfg columns_indexes line_index file_lines st =
     limit_take (lines_to_build cfg) (nb_lines_built st)
       (windows (threshold cfg columns_indexes)
          (tmp_buffer st @ value_stream bi cfg columns_indexes line_index file_lines))"

text \<open>The number of complete windows the sampled lines of an input can fill.\<close>

definition available_windows :: "config \<Rightarrow> string list \<Rightarrow> nat" where
  "available_windows cfg file_lines =
     length (sampled cfg (start_index cfg) file_lines) div nat (buffer_size cfg)"

text \<open>Every line of the list can be read and, when it is sampled, has all the selected
  columns and every one of them converts.\<close>

fun lines_ok :: "'f builtins \<Rightarrow> config \<Rightarrow> int list \<Rightarrow> int \<Rightarrow> string list \<Rightarrow> bool" where
  "lines_ok bi cfg columns_indexes line_index [] = True"
| "lines_ok bi cfg columns_indexes line_index (line # rest) =
     ((case read_values_of_line cfg line of
         Inl _ \<Rightarrow> False
       | Inr vals \<Rightarrow> fst (build_phase bi cfg columns_indexes line_index vals []) = None)
      \<and> lines_ok bi cfg columns_indexes (line_index + 1) rest)"

section \<open>Sample inputs\<close>

text \<open>
  A fragment of Python's floats for the examples: the non-negative decimals with one
  fractional digit, each named by its number of tenths. On the strings of the table
  \<open>float\<close> gives these values, and \<open>str\<close> renders them as below.
\<close>

definition sample_builtins :: "nat builtins" where
  "sample_builtins =
     \<lparr>py_float = map_of
        [(''1.0'', 10), (''2.0'', 20), (''3.0'', 30), (''4.5'', 45), (''5.5'', 55), (''6.5'', 65),
         (''7'', 70), (''8'', 80)],
      py_str = (\<lambda>t. digits (t div 10) @ ''.'' @ digits (t mod 10))\<rparr>"

definition sample_config :: config where
  "sample_config =
     \<lparr>value_delimiter = '','', decimal_delimiter = ''.'', has_headers = False,
      columns_to_keep = [ColInt 1, ColInt 2], buffer_size = 3, downsample_factor = 1,
      lines_to_build = AllLines\<rparr>"

definition sample_lines :: "string list" where
  "sample_lines = [''1.0,4.5'' @ [LF], ''2.0,5.5'' @ [CR, LF], ''3.0,6.5'' @ [LF], ''7,8'']"

definition labels_config :: config where
  "labels_config =
     sample_config\<lparr>has_headers := True, columns_to_keep := [ColLabel ''X'', ColLabel ''Y'']\<rparr>"

definition equal_delimiters_config :: config where
  "equal_delimiters_config = sample_config\<lparr>decimal_delimiter := '',''\<rparr>"

definition short_line_config :: config where
  "short_line_config = sample_config\<lparr>columns_to_keep := [ColInt 1, ColInt 3]\<rparr>"

definition two_rows_config :: config where
  "two_rows_config = sample_config\<lparr>buffer_size := 1, lines_to_build := Lines 2\<rparr>"

definition three_lines :: "string list" where
  "three_lines = [''1.0,4.5'' @ [LF], ''2.0,5.5'' @ [LF], ''3.0,6.5'' @ [LF]]"

text \<open>The positions, counted from 0 in the whole input file, of the lines that are not the
  header and whose line number, counted from 1, is a multiple of the downsample factor.\<close>

definition sampled_position :: "config \<Rightarrow> nat \<Rightarrow> bool" where
  "sampled_position cfg k \<longleftrightarrow>
     (int k + 1) mod downsample_factor cfg = 0 \<and> (has_headers cfg \<longrightarrow> 0 < k)"

definition every_other_config :: config where
  "every_other_config = sample_config\<lparr>buffer_size := 1, downsample_factor := 2\<rparr>"

section \<open>Auxiliary facts\<close>

lemma buffer_complete_iff:
  assumes "cols \<noteq> []"
  shows "buffer_complete buf cols b \<longleftrightarrow> int (length buf) = int (length cols) * b"
proof -
  have nz: "real (length cols) \<noteq> 0" using assms by simp
  have "buffer_complete buf cols b \<longleftrightarrow> real (length buf) = real_of_int b * real (length cols)"
    unfolding buffer_complete_def using nz by (simp add: field_simps)
  also have "\<dots> \<longleftrightarrow> real_of_int (int (length buf)) = real_of_int (b * int (length cols))"
    by simp
  also have "\<dots> \<longleftrightarrow> int (length buf) = b * int (length cols)"
    by (rule of_int_eq_iff)
  finally show ?thesis by (simp add: mult.commute)
qed

lemma buffer_complete_threshold:
  assumes "cols \<noteq> []" "1 \<le> buffer_size cfg"
  shows "buffer_complete buf cols (buffer_size cfg) \<longleftrightarrow> length buf = threshold cfg cols"
proof -
  have "int (threshold cfg cols) = int (length cols) * buffer_size cfg"
    using assms(2) by (simp add: threshold_def)
  then show ?thesis
    using buffer_complete_iff [OF assms(1), of buf "buffer_size cfg"] by linarith
qed

lemma convert_to_float_Inr:
  "convert_to_float bi cfg v lnum r = Inr x \<longleftrightarrow>
     py_float bi (py_replace v (decimal_delimiter cfg) ''.'') = Some x"
  by (auto simp: convert_to_float_def Let_def split: option.splits)

lemma cell_converted:
  "py_index vals idx = Inr v \<Longrightarrow> convert_to_float bi cfg v lnum r = Inr x \<Longrightarrow>
     cell bi cfg vals idx = py_str bi x"
  by (simp add: cell_def convert_to_float_Inr)

lemma build_buffer_any:
  "build_buffer bi cfg li vals cols buf = (e, buf') \<Longrightarrow>
     \<exists>k \<le> length cols. buf' = buf @ map (cell bi cfg vals) (take k cols)
        \<and> (e = None \<longrightarrow> k = length cols) \<and> (e \<noteq> None \<longrightarrow> k < length cols)"
proof (induction cols arbitrary: buf)
  case Nil
  then show ?case by simp
next
  case (Cons idx rest)
  let ?stop = "\<exists>err. e = Some err \<and> buf' = buf"
  have stop: ?case if ?stop
    using that by (intro exI [of _ 0]) auto
  show ?case
  proof (cases "int (length vals) \<le> idx")
    case True
    then have ?stop using Cons.prems by auto
    then show ?thesis by (rule stop)
  next
    case False
    show ?thesis
    proof (cases "py_index vals idx")
      case (Inl err)
      then have ?stop using Cons.prems False by auto
      then show ?thesis by (rule stop)
    next
      case (Inr v)
      show ?thesis
      proof (cases "convert_to_float bi cfg v (Some li) False")
        case (Inl err)
        then have ?stop using Cons.prems False Inr by auto
        then show ?thesis by (rule stop)
      next
        case conv: (Inr x)
        have "build_buffer bi cfg li vals rest (buf @ [py_str bi x]) = (e, buf')"
          using Cons.prems False Inr conv by simp
        from Cons.IH [OF this] obtain k where k: "k \<le> length rest"
          "buf' = (buf @ [py_str bi x]) @ map (cell bi cfg vals) (take k rest)"
          "e = None \<longrightarrow> k = length rest" "e \<noteq> None \<longrightarrow> k < length rest"
          by blast
        have c: "cell bi cfg vals idx = py_str bi x"
          using Inr conv by (rule cell_converted)
        show ?thesis
          using k c by (intro exI [of _ "Suc k"]) auto
      qed
    qed
  qed
qed

lemma build_buffer_ok:
  "build_buffer bi cfg li vals cols buf = (None, buf') \<Longrightarrow> buf' = buf @ map (cell bi cfg vals) cols"
  using build_buffer_any [of bi cfg li vals cols buf None buf'] by auto

lemma windows_short: "length xs < n \<Longrightarrow> windows n xs = []"
  by (simp add: windows.simps)

lemma windows_block: "length a = n \<Longrightarrow> 0 < n \<Longrightarrow> windows n (a @ ys) = a # windows n ys"
  by (subst windows.simps) simp

lemma length_windows: "0 < n \<Longrightarrow> length (windows n xs) = length xs div n"
proof (induction n xs rule: windows.induct)
  case (1 n xs)
  show ?case
  proof (cases "length xs < n")
    case True
    then show ?thesis by (simp add: windows_short)
  next
    case False
    then have "length (windows n xs) = Suc (length (windows n (drop n xs)))"
      using 1(2) by (subst windows.simps) simp
    also have "\<dots> = Suc ((length xs - n) div n)"
      using 1 False by simp
    also have "\<dots> = length xs div n"
      using False 1(2) by (simp add: le_div_geq)
    finally show ?thesis .
  qed
qed

lemma windows_lengths: "r \<in> set (windows n xs) \<Longrightarrow> length r = n"
proof (induction n xs rule: windows.induct)
  case (1 n xs)
  show ?case
  proof (cases "n = 0 \<or> length xs < n")
    case True
    then show ?thesis using 1(2) by (simp add: windows.simps)
  next
    case False
    then have "windows n xs = take n xs # windows n (drop n xs)"
      by (subst windows.simps) simp
    then show ?thesis using 1 False by auto
  qed
qed

lemma concat_windows: "0 < n \<Longrightarrow> concat (windows n xs) = take (n * (length xs div n)) xs"
proof (induction n xs rule: windows.induct)
  case (1 n xs)
  show ?case
  proof (cases "length xs < n")
    case True
    then show ?thesis by (simp add: windows_short)
  next
    case False
    then have w: "windows n xs = take n xs # windows n (drop n xs)"
      using 1(2) by (subst windows.simps) simp
    have d: "length xs div n = Suc ((length xs - n) div n)"
      using False 1(2) by (simp add: le_div_geq)
    have "concat (windows n xs) = take n xs @ take (n * ((length xs - n) div n)) (drop n xs)"
      using w 1 False by simp
    also have "\<dots> = take (n + n * ((length xs - n) div n)) xs"
      by (simp add: take_add)
    finally show ?thesis using d by simp
  qed
qed

lemma join_str_snoc:
  "join_str sep (xs @ [x]) = (if xs = [] then x else join_str sep xs @ sep @ x)"
  by (induction sep xs rule: join_str.induct) auto

lemma render_snoc:
  "render (rows @ [r]) = (if rows = [] then join_str '','' r else render rows @ [LF] @ join_str '','' r)"
  by (simp add: render_def join_str_snoc)

lemma write_rows_render:
  "write_rows (render rows0) (length rows0) rows = render (rows0 @ rows)"
proof (induction rows arbitrary: rows0)
  case Nil
  then show ?case by simp
next
  case (Cons r rs)
  have "(render rows0 @ (if length rows0 > 0 then [LF] else [])) @ join_str '','' r = render (rows0 @ [r])"
    by (simp add: render_snoc) (simp add: render_def)
  then have "write_rows (render rows0) (length rows0) (r # rs) = write_rows (render (rows0 @ [r])) (length (rows0 @ [r])) rs"
    by simp
  also have "\<dots> = render ((rows0 @ [r]) @ rs)" by (rule Cons.IH)
  finally show ?case by simp
qed

lemma write_rows_fresh: "write_rows [] 0 rows = render rows"
  using write_rows_render [of "[]" rows] by (simp add: render_def)

lemma fields_read: "read_values_of_line cfg line = Inr vals \<Longrightarrow> fields cfg line = vals"
  by (simp add: fields_def)

lemma value_stream_Cons:
  "value_stream bi cfg cols li (line # rest) =
     (if li mod downsample_factor cfg = 0 then line_cells bi cfg cols line else [])
       @ value_stream bi cfg cols (li + 1) rest"
  by (simp add: value_stream_def)

lemma build_phase_ok:
  assumes "build_phase bi cfg cols li vals buf = (None, buf')" "read_values_of_line cfg line = Inr vals"
  shows "buf' = buf @ (if li mod downsample_factor cfg = 0 then line_cells bi cfg cols line else [])"
  using assms
  by (auto simp: build_phase_def line_cells_def fields_read split: if_splits dest: build_buffer_ok)

lemma process_line_ok:
  assumes "process_line bi cfg cols li line st = (None, st1)" "cols \<noteq> []" "1 \<le> buffer_size cfg"
  defines "buf1 \<equiv> tmp_buffer st @ (if li mod downsample_factor cfg = 0 then line_cells bi cfg cols line else [])"
  shows "st1 = (if length buf1 = threshold cfg cols
                then \<lparr>nb_lines_built = nb_lines_built st + 1, tmp_buffer = [],
                      output_file = (output_file st @ (if nb_lines_built st > 0 then [LF] else [])) @ join_str '','' buf1\<rparr>
                else st\<lparr>tmp_buffer := buf1\<rparr>)"
proof -
  obtain vals where r: "read_values_of_line cfg line = Inr vals"
    using assms(1) by (cases "read_values_of_line cfg line") (auto simp: process_line_def)
  obtain e buf where b: "build_phase bi cfg cols li vals (tmp_buffer st) = (e, buf)"
    by (cases "build_phase bi cfg cols li vals (tmp_buffer st)")
  have e: "e = None" using assms(1) r b by (cases e) (auto simp: process_line_def)
  have buf: "buf = buf1" unfolding buf1_def using build_phase_ok [OF b [unfolded e] r] .
  have "flush_phase cfg cols buf st = (None, st1)"
    using assms(1) r b e by (simp add: process_line_def)
  then show ?thesis
    using assms(2,3) buf by (auto simp: flush_phase_def buffer_complete_threshold split: if_splits)
qed

lemma dvd_step_le:
  fixes a k n :: nat
  assumes "k dvd a" "k dvd n" "a < n"
  shows "a + k \<le> n"
proof -
  obtain x where x: "a = k * x" using assms(1) by (auto simp: dvd_def)
  obtain y where y: "n = k * y" using assms(2) by (auto simp: dvd_def)
  have "x < y" using assms(3) x y by (metis mult_less_cancel1)
  then have "k * (x + 1) \<le> k * y" by (simp only: mult_le_mono2 Suc_leI Suc_eq_plus1 [symmetric])
  then show ?thesis using x y by simp
qed

lemma length_line_cells: "length (line_cells bi cfg cols line) = length cols"
  by (simp add: line_cells_def)

lemma threshold_pos: "cols \<noteq> [] \<Longrightarrow> 1 \<le> buffer_size cfg \<Longrightarrow> 0 < threshold cfg cols"
  by (simp add: threshold_def)

lemma threshold_dvd: "length cols dvd threshold cfg cols"
  by (simp add: threshold_def)

lemma limit_take_Cons:
  "\<not> limit_reached ltb nb \<Longrightarrow> limit_take ltb nb (r # rs) = r # limit_take ltb (Suc nb) rs"
proof (cases ltb)
  case AllLines
  then show ?thesis by (simp add: limit_take_def)
next
  case (Lines l)
  assume "\<not> limit_reached ltb nb"
  then have "int nb < l" using Lines by (simp add: limit_reached_def)
  then have "nat (l - int nb) = Suc (nat (l - int (Suc nb)))" by simp
  then show ?thesis using Lines by (simp add: limit_take_def)
qed

lemma limit_take_reached: "limit_reached ltb nb \<Longrightarrow> limit_take ltb nb rs = []"
  by (cases ltb) (simp_all add: limit_reached_def limit_take_def)

lemma limit_reached_not_all: "limit_reached ltb nb \<Longrightarrow> ltb \<noteq> AllLines"
  by (auto simp: limit_reached_def)

lemma dataset_loop_ok:
  assumes cols: "cols \<noteq> []" and bs: "1 \<le> buffer_size cfg"
  shows "dataset_loop bi cfg cols li file_lines st = (None, st') \<Longrightarrow>
         length (tmp_buffer st) < threshold cfg cols \<Longrightarrow>
         length cols dvd length (tmp_buffer st) \<Longrightarrow>
         nb_lines_built st' = nb_lines_built st + length (loop_rows bi cfg cols li file_lines st)
         \<and> output_file st' =
             write_rows (output_file st) (nb_lines_built st) (loop_rows bi cfg cols li file_lines st)
         \<and> (lines_to_build cfg = AllLines \<longrightarrow>
               tmp_buffer st' =
                 drop (threshold cfg cols * length (loop_rows bi cfg cols li file_lines st))
                   (tmp_buffer st @ value_stream bi cfg cols li file_lines))"
proof (induction file_lines arbitrary: li st)
  case Nil
  then have "st' = st" by simp
  moreover have "loop_rows bi cfg cols li [] st = []"
    using Nil.prems(2)
    by (cases "lines_to_build cfg") (simp_all add: loop_rows_def value_stream_def windows_short limit_take_def)
  ultimately show ?case by (simp add: value_stream_def)
next
  case (Cons line rest)
  let ?n = "threshold cfg cols"
  have npos: "0 < ?n" using cols bs by (rule threshold_pos)
  show ?case
  proof (cases "limit_reached (lines_to_build cfg) (nb_lines_built st)")
    case True
    then have "st' = st" using Cons.prems(1) by simp
    moreover have "loop_rows bi cfg cols li (line # rest) st = []"
      using True by (simp add: loop_rows_def limit_take_reached)
    moreover have "lines_to_build cfg \<noteq> AllLines" using True by (rule limit_reached_not_all)
    ultimately show ?thesis by simp
  next
    case False
    obtain e1 st1 where p: "process_line bi cfg cols li line st = (e1, st1)"
      by (cases "process_line bi cfg cols li line st")
    have e1: "e1 = None" using Cons.prems(1) False p by (cases e1) auto
    have rest: "dataset_loop bi cfg cols (li + 1) rest st1 = (None, st')"
      using Cons.prems(1) False p e1 by simp
    define c where "c = (if li mod downsample_factor cfg = 0 then line_cells bi cfg cols line else [])"
    define buf1 where "buf1 = tmp_buffer st @ c"
    have st1: "st1 = (if length buf1 = ?n
                then \<lparr>nb_lines_built = nb_lines_built st + 1, tmp_buffer = [],
                      output_file = (output_file st @ (if nb_lines_built st > 0 then [LF] else [])) @ join_str '','' buf1\<rparr>
                else st\<lparr>tmp_buffer := buf1\<rparr>)"
      using process_line_ok [OF p [unfolded e1] cols bs] by (simp add: buf1_def c_def)
    have stream: "tmp_buffer st @ value_stream bi cfg cols li (line # rest)
                    = buf1 @ value_stream bi cfg cols (li + 1) rest"
      by (simp add: value_stream_Cons buf1_def c_def)
    have clen: "length c = 0 \<or> length c = length cols"
      by (simp add: c_def length_line_cells)
    have le: "length buf1 \<le> ?n"
      using dvd_step_le [OF Cons.prems(3) threshold_dvd Cons.prems(2)] clen Cons.prems(2)
      by (auto simp: buf1_def)
    have dvd1: "length cols dvd length buf1"
      using clen Cons.prems(3) by (auto simp: buf1_def)
    show ?thesis
    proof (cases "length buf1 = ?n")
      case True
      let ?st1 = "\<lparr>nb_lines_built = nb_lines_built st + 1, tmp_buffer = [],
                      output_file = (output_file st @ (if nb_lines_built st > 0 then [LF] else [])) @ join_str '','' buf1\<rparr>"
      have s: "st1 = ?st1" using st1 True by simp
      have ih: "nb_lines_built st' = nb_lines_built st1 + length (loop_rows bi cfg cols (li + 1) rest st1)
         \<and> output_file st' =
             write_rows (output_file st1) (nb_lines_built st1) (loop_rows bi cfg cols (li + 1) rest st1)
         \<and> (lines_to_build cfg = AllLines \<longrightarrow>
               tmp_buffer st' =
                 drop (?n * length (loop_rows bi cfg cols (li + 1) rest st1))
                   (tmp_buffer st1 @ value_stream bi cfg cols (li + 1) rest))"
        using Cons.IH [OF rest] npos s by simp
      have rows: "loop_rows bi cfg cols li (line # rest) st = buf1 # loop_rows bi cfg cols (li + 1) rest st1"
        unfolding loop_rows_def stream
        using windows_block [OF True npos] limit_take_Cons [OF False] s by simp
      show ?thesis
        unfolding rows stream using ih s True by simp
    next
      case F: False
      have s: "st1 = st\<lparr>tmp_buffer := buf1\<rparr>" using st1 F by simp
      have lt: "length (tmp_buffer st1) < ?n" using le F s by simp
      have dv: "length cols dvd length (tmp_buffer st1)" using dvd1 s by simp
      have rows: "loop_rows bi cfg cols li (line # rest) st = loop_rows bi cfg cols (li + 1) rest st1"
        unfolding loop_rows_def stream using s by simp
      show ?thesis
        unfolding rows stream using Cons.IH [OF rest lt dv] s by simp
    qed
  qed
qed

lemma index_of_Some:
  "index_of xs x = Some i \<Longrightarrow> i < length xs \<and> xs ! i = x \<and> x \<notin> set (take i xs)"
proof (induction xs arbitrary: i)
  case Nil
  then show ?case by simp
next
  case (Cons y ys)
  show ?case
  proof (cases "y = x")
    case True
    then show ?thesis using Cons.prems by simp
  next
    case False
    then obtain j where j: "index_of ys x = Some j" "i = Suc j"
      using Cons.prems by auto
    then show ?thesis using Cons.IH [OF j(1)] False by simp
  qed
qed

lemma index_of_None: "index_of xs x = None \<longleftrightarrow> x \<notin> set xs"
  by (induction xs) auto

lemma resolve_labels_found:
  "list_all2 (\<lambda>s i. header_index hs s = Some i) sels ns \<Longrightarrow>
     resolve_labels hs sels acc = Inr (acc @ map int ns)"
proof (induction sels arbitrary: ns acc)
  case Nil
  then show ?case by simp
next
  case (Cons s sels)
  then obtain n ns' where ns: "ns = n # ns'" "header_index hs s = Some n"
      "list_all2 (\<lambda>s i. header_index hs s = Some i) sels ns'"
    by (auto simp: list_all2_Cons1)
  show ?case using Cons.IH [OF ns(3)] ns(1,2) by simp
qed

lemma resolve_labels_missing:
  "list_all2 (\<lambda>s i. header_index hs s = Some i) pre ns \<Longrightarrow> header_index hs s = None \<Longrightarrow>
     resolve_labels hs (pre @ s # post) acc = Inl (LabelNotFound s)"
proof (induction pre arbitrary: ns acc)
  case Nil
  then show ?case by simp
next
  case (Cons p pre)
  then obtain n ns' where ns: "ns = n # ns'" "header_index hs p = Some n"
      "list_all2 (\<lambda>s i. header_index hs s = Some i) pre ns'"
    by (auto simp: list_all2_Cons1)
  show ?case using Cons.IH [OF ns(3) Cons.prems(2)] ns(2) by simp
qed

lemma resolve_ints_map: "resolve_ints (map ColInt ns) acc = acc @ map (\<lambda>n. n - 1) ns"
  by (induction ns arbitrary: acc) auto

lemma list_all_is_int_map: "list_all is_int (map ColInt ns)"
  by (induction ns) auto


section \<open>Column selectors\<close>

text \<open>
  Claim C8. When some configured selector is not an integer: without headers
  \<open>get_columns_indexes_to_keep\<close> fails with the configuration error of line 136; with
  headers, when every selector is found, the result is the list of the positions found, in
  selector order, and otherwise the failure is the lookup error of line 141 naming the
  first selector that is not found. A label is found at the first position of the headers
  that holds exactly that string, and is not found exactly when no header equals it.
  The main sequence fails with the same errors: without headers at once, with headers
  once the header line is read.
\<close>

theorem label_selectors_resolve:
  assumes "\<not> list_all is_int (columns_to_keep cfg)"
  shows "(\<not> has_headers cfg \<longrightarrow>
            get_columns_indexes_to_keep cfg headers = Inl LabelsWithoutHeaders
            \<and> kind_of LabelsWithoutHeaders = ConfigurationError)
       \<and> (has_headers cfg \<longrightarrow>
            (\<forall>ns. list_all2 (\<lambda>s i. header_index hs s = Some i) (columns_to_keep cfg) ns \<longrightarrow>
                 get_columns_indexes_to_keep cfg (Some hs) = Inr (map int ns))
          \<and> (\<forall>pre ns s post.
                 columns_to_keep cfg = pre @ s # post
                 \<and> list_all2 (\<lambda>s i. header_index hs s = Some i) pre ns
                 \<and> header_index hs s = None \<longrightarrow>
                 get_columns_indexes_to_keep cfg (Some hs) = Inl (LabelNotFound s)
                 \<and> kind_of (LabelNotFound s) = LookupError
                 \<and> exit_message (LabelNotFound s) =
                     Some (''Column label '' @ [CHR 0x22] @ str_selector s @ [CHR 0x22]
                           @ '' cannot be found in input file headers'')))
       \<and> (\<forall>l i. header_index hs (ColLabel l) = Some i \<longrightarrow>
             i < length hs \<and> hs ! i = l \<and> l \<notin> set (take i hs))
       \<and> (\<forall>l. header_index hs (ColLabel l) = None \<longleftrightarrow> l \<notin> set hs)
       \<and> (\<not> has_headers cfg \<longrightarrow>
            main_sequence bi cfg inp = (Some LabelsWithoutHeaders, initial_state))
       \<and> (\<forall>rest warned. get_headers bi cfg inp = Inr (Some hs, rest, warned) \<longrightarrow>
            main_sequence bi cfg inp =
              (case get_columns_indexes_to_keep cfg (Some hs) of
                 Inl e \<Rightarrow> (Some e, initial_state)
               | Inr cols \<Rightarrow> create_dataset bi cfg rest cols))"
proof -
  have ne: "columns_to_keep cfg \<noteq> []" using assms by auto
  have a: "\<not> has_headers cfg \<longrightarrow>
            get_columns_indexes_to_keep cfg headers = Inl LabelsWithoutHeaders
            \<and> kind_of LabelsWithoutHeaders = ConfigurationError"
    using assms ne by (simp add: get_columns_indexes_to_keep_def)
  have b: "get_columns_indexes_to_keep cfg (Some hs) = resolve_labels hs (columns_to_keep cfg) []"
    if "has_headers cfg"
    using that assms ne by (simp add: get_columns_indexes_to_keep_def)
  have c: "has_headers cfg \<longrightarrow>
            (\<forall>ns. list_all2 (\<lambda>s i. header_index hs s = Some i) (columns_to_keep cfg) ns \<longrightarrow>
                 get_columns_indexes_to_keep cfg (Some hs) = Inr (map int ns))"
    using b resolve_labels_found [of hs "columns_to_keep cfg" _ "[]"] by simp
  have d: "has_headers cfg \<longrightarrow> (\<forall>pre ns s post.
                 columns_to_keep cfg = pre @ s # post
                 \<and> list_all2 (\<lambda>s i. header_index hs s = Some i) pre ns
                 \<and> header_index hs s = None \<longrightarrow>
                 get_columns_indexes_to_keep cfg (Some hs) = Inl (LabelNotFound s)
                 \<and> kind_of (LabelNotFound s) = LookupError
                 \<and> exit_message (LabelNotFound s) =
                     Some (''Column label '' @ [CHR 0x22] @ str_selector s @ [CHR 0x22]
                           @ '' cannot be found in input file headers''))"
    using b resolve_labels_missing [of hs _ _ _ _ "[]"] by auto
  have e: "\<forall>l i. header_index hs (ColLabel l) = Some i \<longrightarrow>
             i < length hs \<and> hs ! i = l \<and> l \<notin> set (take i hs)"
    using index_of_Some [of hs] by simp
  have f: "\<forall>l. header_index hs (ColLabel l) = None \<longleftrightarrow> l \<notin> set hs"
    by (simp add: index_of_None)
  have g: "\<not> has_headers cfg \<longrightarrow>
            main_sequence bi cfg inp = (Some LabelsWithoutHeaders, initial_state)"
    using assms ne by (simp add: main_sequence_def get_headers_def get_columns_indexes_to_keep_def)
  have h: "\<forall>rest warned. get_headers bi cfg inp = Inr (Some hs, rest, warned) \<longrightarrow>
            main_sequence bi cfg inp =
              (case get_columns_indexes_to_keep cfg (Some hs) of
                 Inl e \<Rightarrow> (Some e, initial_state)
               | Inr cols \<Rightarrow> create_dataset bi cfg rest cols)"
    by (simp add: main_sequence_def)
  from a c d e f g h show ?thesis by blast
qed


theorem label_selectors_resolve_witness:
  "get_columns_indexes_to_keep (labels_config\<lparr>has_headers := False\<rparr>) None = Inl LabelsWithoutHeaders
   \<and> get_columns_indexes_to_keep labels_config (Some [''T'', ''X'', ''Y'']) = Inr [1, 2]
   \<and> get_columns_indexes_to_keep labels_config (Some [''T'', ''X'']) = Inl (LabelNotFound (ColLabel ''Y''))
   \<and> header_index [''T'', ''X'', ''Y''] (ColLabel ''Y'') = Some 2
   \<and> main_sequence sample_builtins (labels_config\<lparr>has_headers := False\<rparr>) sample_lines
       = (Some LabelsWithoutHeaders, initial_state)
   \<and> main_sequence sample_builtins labels_config ((''T,X'' @ [LF]) # sample_lines)
       = (Some (LabelNotFound (ColLabel ''Y'')), initial_state)"
proof -
  have h1: "\<not> list_all is_int (columns_to_keep (labels_config\<lparr>has_headers := False\<rparr>))"
    by (simp add: labels_config_def sample_config_def)
  have h2: "\<not> list_all is_int (columns_to_keep labels_config)"
    by (simp add: labels_config_def sample_config_def)
  have hh: "has_headers labels_config" "\<not> has_headers (labels_config\<lparr>has_headers := False\<rparr>)"
    by (simp_all add: labels_config_def)
  have found: "list_all2 (\<lambda>s i. header_index [''T'', ''X'', ''Y''] s = Some i)
                 (columns_to_keep labels_config) [1, 2]"
    by (simp add: labels_config_def)
  have split: "columns_to_keep labels_config = [ColLabel ''X''] @ ColLabel ''Y'' # []"
    "list_all2 (\<lambda>s i. header_index [''T'', ''X''] s = Some i) [ColLabel ''X''] [1]"
    "header_index [''T'', ''X''] (ColLabel ''Y'') = None"
    by (simp_all add: labels_config_def)
  have a: "get_columns_indexes_to_keep (labels_config\<lparr>has_headers := False\<rparr>) None = Inl LabelsWithoutHeaders"
    using label_selectors_resolve [OF h1, of None] hh(2) by blast
  have b: "get_columns_indexes_to_keep labels_config (Some [''T'', ''X'', ''Y'']) = Inr (map int [1, 2])"
    using label_selectors_resolve [OF h2, of _ "[''T'', ''X'', ''Y'']"] hh(1) found by blast
  have c: "get_columns_indexes_to_keep labels_config (Some [''T'', ''X'']) = Inl (LabelNotFound (ColLabel ''Y''))"
    using label_selectors_resolve [OF h2, of _ "[''T'', ''X'']"] hh(1) split by blast
  have d: "main_sequence sample_builtins (labels_config\<lparr>has_headers := False\<rparr>) sample_lines
       = (Some LabelsWithoutHeaders, initial_state)"
    using label_selectors_resolve [OF h1, of _ _ sample_builtins sample_lines] hh(2) by blast
  have gh: "get_headers sample_builtins labels_config ((''T,X'' @ [LF]) # sample_lines)
              = Inr (Some [''T'', ''X''], sample_lines, False)"
    by code_simp
  have e: "main_sequence sample_builtins labels_config ((''T,X'' @ [LF]) # sample_lines)
       = (case get_columns_indexes_to_keep labels_config (Some [''T'', ''X'']) of
            Inl e \<Rightarrow> (Some e, initial_state)
          | Inr cols \<Rightarrow> create_dataset sample_builtins labels_config sample_lines cols)"
    using label_selectors_resolve [OF h2, of _ "[''T'', ''X'']" sample_builtins
        "(''T,X'' @ [LF]) # sample_lines"] gh
    by blast
  show ?thesis using a b c d e by simp
qed

lemma split_str_nonempty: "split_str sep cur s \<noteq> []"
  by (induction sep cur s rule: split_str.induct) auto

lemma read_values_nonempty: "read_values_of_line cfg line = Inr vals \<Longrightarrow> vals \<noteq> []"
  by (auto simp: read_values_of_line_def py_split_def split_str_nonempty split: if_splits)

lemma py_index_last: "vals \<noteq> [] \<Longrightarrow> py_index vals (- 1) = Inr (last vals)"
  by (cases vals rule: rev_cases) (auto simp: py_index_def nth_append)

lemma build_buffer_append:
  "build_buffer bi cfg li vals (pre @ post) buf =
     (case build_buffer bi cfg li vals pre buf of
        (None, b) \<Rightarrow> build_buffer bi cfg li vals post b
      | (Some e, b) \<Rightarrow> (Some e, b))"
  by (induction pre arbitrary: buf) (auto split: sum.splits)

lemma not_enough_values_column:
  "build_buffer bi cfg li vals cols buf = (Some (NotEnoughValues a col c d e), buf') \<Longrightarrow>
     int (length vals) < col"
proof (induction cols arbitrary: buf)
  case Nil
  then show ?case by simp
next
  case (Cons idx rest)
  show ?case
  proof (cases "int (length vals) \<le> idx")
    case True
    then show ?thesis using Cons.prems by auto
  next
    case False
    show ?thesis
    proof (cases "py_index vals idx")
      case (Inl err)
      then show ?thesis using Cons.prems False by (auto simp: py_index_def split: if_splits)
    next
      case (Inr v)
      show ?thesis
      proof (cases "convert_to_float bi cfg v (Some li) False")
        case (Inl err)
        then show ?thesis using Cons.prems False Inr
          by (auto simp: convert_to_float_def Let_def split: option.splits if_splits)
      next
        case conv: (Inr x)
        then show ?thesis using Cons.prems False Inr Cons.IH by auto
      qed
    qed
  qed
qed


text \<open>
  Claim C9. The integer selector 0 resolves to the index \<open>-1\<close>. On the values of any line
  that was read (there is always at least one) the test of line 164 is false for it, the
  field read is the last one of the line, and whatever the columns, the failure of lines
  166-169 is never reported for column number 0: the last column is buffered instead.
\<close>

theorem selector_zero_buffers_last_field:
  assumes "read_values_of_line cfg line = Inr vals"
  shows "get_columns_indexes_to_keep (cfg\<lparr>columns_to_keep := map ColInt (0 # ns)\<rparr>) headers
           = Inr (- 1 # map (\<lambda>n. n - 1) ns)
       \<and> vals \<noteq> [] \<and> \<not> int (length vals) \<le> - 1
       \<and> py_index vals (- 1) = Inr (last vals)
       \<and> build_buffer bi cfg li vals (- 1 # rest) buf =
            (case convert_to_float bi cfg (last vals) (Some li) False of
               Inl e \<Rightarrow> (Some e, buf)
             | Inr x \<Rightarrow> build_buffer bi cfg li vals rest (buf @ [py_str bi x]))
       \<and> (\<forall>cols a c d e buf'.
             build_buffer bi cfg li vals cols buf \<noteq> (Some (NotEnoughValues a 0 c d e), buf'))"
proof -
  have ne: "vals \<noteq> []" using assms by (rule read_values_nonempty)
  have r: "get_columns_indexes_to_keep (cfg\<lparr>columns_to_keep := map ColInt (0 # ns)\<rparr>) headers
           = Inr (- 1 # map (\<lambda>n. n - 1) ns)"
    using resolve_ints_map [of "0 # ns" "[]"] list_all_is_int_map [of "0 # ns"]
    by (simp add: get_columns_indexes_to_keep_def)
  have i: "py_index vals (- 1) = Inr (last vals)" using ne by (rule py_index_last)
  have b: "build_buffer bi cfg li vals (- 1 # rest) buf =
            (case convert_to_float bi cfg (last vals) (Some li) False of
               Inl e \<Rightarrow> (Some e, buf)
             | Inr x \<Rightarrow> build_buffer bi cfg li vals rest (buf @ [py_str bi x]))"
    using i by simp
  have n: "\<forall>cols a c d e buf'.
             build_buffer bi cfg li vals cols buf \<noteq> (Some (NotEnoughValues a 0 c d e), buf')"
    using not_enough_values_column [of bi cfg li vals _ buf _ 0] by fastforce
  show ?thesis using ne r i b n by simp
qed

theorem selector_zero_buffers_last_field_witness:
  "read_values_of_line sample_config (''1.0,4.5'' @ [LF]) = Inr [''1.0'', ''4.5'']
   \<and> get_columns_indexes_to_keep (sample_config\<lparr>columns_to_keep := [ColInt 0]\<rparr>) None = Inr [- 1]
   \<and> build_buffer sample_builtins sample_config 1 [''1.0'', ''4.5''] [- 1] [] = (None, [''4.5''])
   \<and> main_sequence sample_builtins (sample_config\<lparr>columns_to_keep := [ColInt 0]\<rparr>) sample_lines
        = (None, \<lparr>nb_lines_built = 1, tmp_buffer = [''8.0''], output_file = ''4.5,5.5,6.5''\<rparr>)"
proof -
  have h: "read_values_of_line sample_config (''1.0,4.5'' @ [LF]) = Inr [''1.0'', ''4.5'']"
    by code_simp
  have c: "convert_to_float sample_builtins sample_config ''4.5'' (Some 1) False = Inr 45"
    by code_simp
  have s: "py_str sample_builtins 45 = ''4.5''" by code_simp
  have m: "main_sequence sample_builtins (sample_config\<lparr>columns_to_keep := [ColInt 0]\<rparr>) sample_lines
        = (None, \<lparr>nb_lines_built = 1, tmp_buffer = [''8.0''], output_file = ''4.5,5.5,6.5''\<rparr>)"
    by code_simp
  show ?thesis
    using selector_zero_buffers_last_field [OF h, of "[]" None sample_builtins 1 "[]" "[]"] h c s m
    by simp
qed

section \<open>Equal delimiters\<close>

text \<open>
  Claim C6 fails as stated: the equality of the two delimiters is tested inside
  \<open>read_values_of_line\<close> only, so a run that reads no line does not fail. Without
  headers and on an empty input the run ends without error.
\<close>

theorem delimiters_equal_counterexample:
  "value_delimiter equal_delimiters_config = decimal_delimiter equal_delimiters_config
   \<and> main_sequence sample_builtins equal_delimiters_config [] = (None, initial_state)"
  by code_simp

lemma get_columns_no_headers_error:
  "\<not> has_headers cfg \<Longrightarrow> get_columns_indexes_to_keep cfg headers = Inl e \<Longrightarrow>
     kind_of e = ConfigurationError"
  by (auto simp: get_columns_indexes_to_keep_def split: if_splits)

lemma dataset_loop_equal_delimiters:
  assumes "value_delimiter cfg = decimal_delimiter cfg"
  shows "dataset_loop bi cfg cols li inp st =
           (if inp = [] \<or> limit_reached (lines_to_build cfg) (nb_lines_built st) then (None, st)
            else (Some DelimitersEqual, st))"
  using assms by (cases inp) (auto simp: process_line_def read_values_of_line_def)

lemma main_sequence_equal_delimiters_headers:
  assumes "value_delimiter cfg = decimal_delimiter cfg" "has_headers cfg"
  shows "main_sequence bi cfg inp = (Some DelimitersEqual, initial_state)"
  using assms by (simp add: main_sequence_def get_headers_def read_values_of_line_def Let_def)

lemma main_sequence_equal_delimiters_no_headers:
  assumes "value_delimiter cfg = decimal_delimiter cfg" "\<not> has_headers cfg"
  shows "main_sequence bi cfg inp =
              (case get_columns_indexes_to_keep cfg None of
                 Inl e \<Rightarrow> (Some e, initial_state)
               | Inr cols \<Rightarrow>
                   (if inp = [] \<or> limit_reached (lines_to_build cfg) 0 then (None, initial_state)
                    else (Some DelimitersEqual, initial_state)))"
  using assms(2) dataset_loop_equal_delimiters [OF assms(1), of bi _ _ inp initial_state]
  by (simp add: main_sequence_def get_headers_def create_dataset_def initial_state_def
        split: sum.splits)

text \<open>
  Claim C6, amended. With equal delimiters: when headers are declared, the run fails with
  the configuration error of line 61 on the header line; without headers, once the
  selectors are resolved, it fails with that error on the first data line, unless the
  input has no line or the row limit is already reached before the first line, where it
  ends without error. Every failure of such a run is a configuration error and leaves the
  buffer and the output empty, and the outcome does not depend on how fields are parsed.
\<close>

theorem delimiters_equal_detected:
  assumes "value_delimiter cfg = decimal_delimiter cfg"
  shows "(has_headers cfg \<longrightarrow> main_sequence bi cfg inp = (Some DelimitersEqual, initial_state))
       \<and> (\<not> has_headers cfg \<longrightarrow>
            (\<forall>cols. get_columns_indexes_to_keep cfg None = Inr cols \<longrightarrow>
               main_sequence bi cfg inp =
                 (if inp = [] \<or> limit_reached (lines_to_build cfg) 0 then (None, initial_state)
                  else (Some DelimitersEqual, initial_state))))
       \<and> (\<forall>e st. main_sequence bi cfg inp = (Some e, st) \<longrightarrow>
             kind_of e = ConfigurationError \<and> st = initial_state)
       \<and> main_sequence bi cfg inp = main_sequence bi' cfg inp"
proof -
  note hd = main_sequence_equal_delimiters_headers [OF assms]
  note nh = main_sequence_equal_delimiters_no_headers [OF assms]
  have a: "has_headers cfg \<longrightarrow> main_sequence bi cfg inp = (Some DelimitersEqual, initial_state)"
    by (simp add: hd)
  have b: "\<not> has_headers cfg \<longrightarrow>
            (\<forall>cols. get_columns_indexes_to_keep cfg None = Inr cols \<longrightarrow>
               main_sequence bi cfg inp =
                 (if inp = [] \<or> limit_reached (lines_to_build cfg) 0 then (None, initial_state)
                  else (Some DelimitersEqual, initial_state)))"
    by (simp add: nh)
  have c: "\<forall>e st. main_sequence bi cfg inp = (Some e, st) \<longrightarrow>
             kind_of e = ConfigurationError \<and> st = initial_state"
  proof (cases "has_headers cfg")
    case True
    then show ?thesis by (simp add: hd)
  next
    case False
    then show ?thesis
      using get_columns_no_headers_error [OF False, of None]
      by (auto simp: nh split: sum.splits if_splits)
  qed
  have d: "main_sequence bi cfg inp = main_sequence bi' cfg inp"
    by (cases "has_headers cfg") (simp_all add: hd nh)
  show ?thesis using a b c d by blast
qed

theorem delimiters_equal_detected_witness:
  "main_sequence sample_builtins (equal_delimiters_config\<lparr>has_headers := True\<rparr>) []
      = (Some DelimitersEqual, initial_state)
   \<and> main_sequence sample_builtins equal_delimiters_config sample_lines
      = (Some DelimitersEqual, initial_state)
   \<and> main_sequence sample_builtins (equal_delimiters_config\<lparr>lines_to_build := Lines 0\<rparr>) sample_lines
      = (None, initial_state)"
proof -
  have h1: "value_delimiter (equal_delimiters_config\<lparr>has_headers := True\<rparr>)
             = decimal_delimiter (equal_delimiters_config\<lparr>has_headers := True\<rparr>)"
    by (simp add: equal_delimiters_config_def sample_config_def)
  have h2: "value_delimiter equal_delimiters_config = decimal_delimiter equal_delimiters_config"
    by (simp add: equal_delimiters_config_def sample_config_def)
  have h3: "value_delimiter (equal_delimiters_config\<lparr>lines_to_build := Lines 0\<rparr>)
             = decimal_delimiter (equal_delimiters_config\<lparr>lines_to_build := Lines 0\<rparr>)"
    by (simp add: equal_delimiters_config_def sample_config_def)
  have c2: "get_columns_indexes_to_keep equal_delimiters_config None = Inr [0, 1]"
    by code_simp
  have c3: "get_columns_indexes_to_keep (equal_delimiters_config\<lparr>lines_to_build := Lines 0\<rparr>) None = Inr [0, 1]"
    by code_simp
  have f: "\<not> has_headers equal_delimiters_config" "sample_lines \<noteq> []"
    "\<not> limit_reached (lines_to_build equal_delimiters_config) 0"
    "limit_reached (lines_to_build (equal_delimiters_config\<lparr>lines_to_build := Lines 0\<rparr>)) 0"
    by (simp_all add: equal_delimiters_config_def sample_config_def sample_lines_def limit_reached_def)
  have a: "main_sequence sample_builtins (equal_delimiters_config\<lparr>has_headers := True\<rparr>) []
      = (Some DelimitersEqual, initial_state)"
    using delimiters_equal_detected [OF h1, of sample_builtins "[]" sample_builtins] by simp
  have b: "main_sequence sample_builtins equal_delimiters_config sample_lines
      = (Some DelimitersEqual, initial_state)"
    using delimiters_equal_detected [OF h2, of sample_builtins sample_lines sample_builtins] c2 f
    by simp
  have c: "main_sequence sample_builtins (equal_delimiters_config\<lparr>lines_to_build := Lines 0\<rparr>) sample_lines
      = (None, initial_state)"
    using delimiters_equal_detected [OF h3, of sample_builtins sample_lines sample_builtins] c3 f
    by simp
  show ?thesis using a b c by simp
qed

section \<open>Lines that are too short\<close>

text \<open>
  Claim C7 fails as stated: the columns are visited in selector order and each field is
  converted as soon as its presence is checked, so a line that lacks a later column fails
  with the conversion error of an earlier one when that one does not convert. With the
  selectors 1 and 3 the line \<open>x,1.0\<close> lacks column 3, and the run fails on \<open>x\<close>.
\<close>

theorem short_line_counterexample:
  "fields short_line_config ''x,1.0'' = [''x'', ''1.0'']
   \<and> get_columns_indexes_to_keep short_line_config None = Inr [0, 2]
   \<and> main_sequence sample_builtins short_line_config [''x,1.0'']
        = (Some (CannotConvert ''x'' ''x'' (Some 1) HeadersHint), initial_state)"
  by code_simp

text \<open>
  Claim C7, amended. When a sampled line that is reached lacks a selected column, and
  every column selected before it is present and converts, the run stops with the error of
  lines 166-169, which carries the line number, the missing column number counted from 1
  and the fields of the line, and is a data format error. The buffer then holds the
  values of the columns before the missing one and nothing more of that line.
\<close>

theorem short_line_fails:
  assumes "read_values_of_line cfg line = Inr vals"
    and "downsample_factor cfg \<noteq> 0" and "li mod downsample_factor cfg = 0"
    and "\<not> limit_reached (lines_to_build cfg) (nb_lines_built st)"
    and "cols = pre @ idx # post" and "int (length vals) \<le> idx"
    and "build_buffer bi cfg li vals pre (tmp_buffer st) = (None, buf1)"
  shows "dataset_loop bi cfg cols li (line # rest) st =
           (Some (NotEnoughValues li (idx + 1) (length vals) vals (li \<le> 2)),
            st\<lparr>tmp_buffer := buf1\<rparr>)
       \<and> buf1 = tmp_buffer st @ map (cell bi cfg vals) pre
       \<and> kind_of (NotEnoughValues li (idx + 1) (length vals) vals (li \<le> 2)) = DataFormatError
       \<and> exit_message (NotEnoughValues li (idx + 1) (length vals) vals (li \<le> 2)) =
           Some (''Line '' @ str_int li
                 @ '' does not contain enough values. Looking for columns number ''
                 @ str_int (idx + 1) @ '' and only '' @ str_int (int (length vals))
                 @ '' columns / '' @ format_list vals
                 @ (if li \<le> 2
                    then [LF] @ ''       It may be because values delimiter is not correctly set. ''
                         @ delimiters_advice
                    else []))"
proof -
  let ?e = "NotEnoughValues li (idx + 1) (length vals) vals (li \<le> 2)"
  have "build_buffer bi cfg li vals cols (tmp_buffer st) = (Some ?e, buf1)"
    using assms(5,6,7) by (simp add: build_buffer_append)
  then have "build_phase bi cfg cols li vals (tmp_buffer st) = (Some ?e, buf1)"
    using assms(2,3) by (simp add: build_phase_def)
  then have "process_line bi cfg cols li line st = (Some ?e, st\<lparr>tmp_buffer := buf1\<rparr>)"
    using assms(1) by (simp add: process_line_def)
  then have a: "dataset_loop bi cfg cols li (line # rest) st = (Some ?e, st\<lparr>tmp_buffer := buf1\<rparr>)"
    using assms(4) by simp
  have b: "buf1 = tmp_buffer st @ map (cell bi cfg vals) pre"
    using assms(7) by (rule build_buffer_ok)
  show ?thesis using a b by simp
qed

theorem short_line_fails_witness:
  "dataset_loop sample_builtins sample_config [0, 1, 2] 3 [''3.0,6.5'' @ [LF], ''7,8''] initial_state
     = (Some (NotEnoughValues 3 3 2 [''3.0'', ''6.5''] False),
        initial_state\<lparr>tmp_buffer := [''3.0'', ''6.5'']\<rparr>)
   \<and> exit_message (NotEnoughValues 3 3 2 [''3.0'', ''6.5''] False)
     = Some ''Line 3 does not contain enough values. Looking for columns number 3 and only 2 columns / 1: 3.0  2: 6.5''"
proof -
  have h1: "read_values_of_line sample_config (''3.0,6.5'' @ [LF]) = Inr [''3.0'', ''6.5'']"
    by code_simp
  have h2: "downsample_factor sample_config \<noteq> 0" "3 mod downsample_factor sample_config = 0"
    "\<not> limit_reached (lines_to_build sample_config) (nb_lines_built initial_state)"
    by (simp_all add: sample_config_def limit_reached_def)
  have h5: "[0, 1, 2] = [0, 1] @ (2::int) # []" "int (length [''3.0'', ''6.5'']) \<le> 2"
    by simp_all
  have h7: "build_buffer sample_builtins sample_config 3 [''3.0'', ''6.5''] [0, 1] (tmp_buffer initial_state)
              = (None, [''3.0'', ''6.5''])"
    by code_simp
  have m: "format_list [''3.0'', ''6.5''] = ''1: 3.0  2: 6.5''" "str_int 3 = ''3''" "str_int 2 = ''2''"
    by code_simp+
  show ?thesis
    using short_line_fails [OF h1 h2 h5 h7, of "[''7,8'']"] m by simp
qed

section \<open>The loop of \<open>create_dataset\<close>\<close>

lemma build_buffer_range:
  "build_buffer bi cfg li vals cols buf = (e, buf') \<Longrightarrow> set buf' \<subseteq> set buf \<union> range (py_str bi)"
proof (induction cols arbitrary: buf)
  case Nil
  then show ?case by auto
next
  case (Cons idx rest)
  show ?case
  proof (cases "buf' = buf")
    case True
    then show ?thesis by auto
  next
    case False
    then obtain x where "build_buffer bi cfg li vals rest (buf @ [py_str bi x]) = (e, buf')"
      using Cons.prems by (auto split: if_splits sum.splits)
    from Cons.IH [OF this] show ?thesis by auto
  qed
qed

lemma build_phase_any:
  assumes "build_phase bi cfg cols li vals buf0 = (e, buf)"
  shows "\<exists>k \<le> length cols. length buf = length buf0 + k
           \<and> (e = None \<longrightarrow> k = 0 \<or> k = length cols) \<and> (e \<noteq> None \<longrightarrow> k < length cols \<or> buf = buf0)
           \<and> set buf \<subseteq> set buf0 \<union> range (py_str bi)"
proof (cases "downsample_factor cfg \<noteq> 0 \<and> li mod downsample_factor cfg = 0")
  case True
  then have b: "build_buffer bi cfg li vals cols buf0 = (e, buf)"
    using assms by (simp add: build_phase_def)
  from build_buffer_any [OF b] obtain k where k: "k \<le> length cols"
    "buf = buf0 @ map (cell bi cfg vals) (take k cols)"
    "e = None \<longrightarrow> k = length cols" "e \<noteq> None \<longrightarrow> k < length cols"
    by blast
  show ?thesis
    using k build_buffer_range [OF b] by (intro exI [of _ k]) auto
next
  case False
  then have "buf = buf0" using assms by (auto simp: build_phase_def split: if_splits)
  then show ?thesis by (intro exI [of _ 0]) auto
qed

lemma process_line_any:
  assumes p: "process_line bi cfg cols li line st = (e, st1)"
    and cols: "cols \<noteq> []" and bs: "1 \<le> buffer_size cfg"
    and lt: "length (tmp_buffer st) < threshold cfg cols"
    and dv: "length cols dvd length (tmp_buffer st)"
  shows "(\<exists>buf. length buf = threshold cfg cols
            \<and> set buf \<subseteq> set (tmp_buffer st) \<union> range (py_str bi) \<and> e = None
            \<and> st1 = \<lparr>nb_lines_built = nb_lines_built st + 1, tmp_buffer = [],
                     output_file = (output_file st @ (if nb_lines_built st > 0 then [LF] else []))
                                     @ join_str '','' buf\<rparr>)
       \<or> (length (tmp_buffer st1) < threshold cfg cols
            \<and> (e = None \<longrightarrow> length cols dvd length (tmp_buffer st1))
            \<and> set (tmp_buffer st1) \<subseteq> set (tmp_buffer st) \<union> range (py_str bi)
            \<and> nb_lines_built st1 = nb_lines_built st \<and> output_file st1 = output_file st)"
proof (cases "read_values_of_line cfg line")
  case (Inl err)
  then have "st1 = st" using p by (simp add: process_line_def)
  then show ?thesis using lt dv by auto
next
  case (Inr vals)
  obtain e' buf where b: "build_phase bi cfg cols li vals (tmp_buffer st) = (e', buf)"
    by (cases "build_phase bi cfg cols li vals (tmp_buffer st)")
  from build_phase_any [OF b] obtain k where k: "k \<le> length cols"
    "length buf = length (tmp_buffer st) + k"
    "e' = None \<longrightarrow> k = 0 \<or> k = length cols" "e' \<noteq> None \<longrightarrow> k < length cols \<or> buf = tmp_buffer st"
    "set buf \<subseteq> set (tmp_buffer st) \<union> range (py_str bi)"
    by blast
  have room: "length (tmp_buffer st) + length cols \<le> threshold cfg cols"
    using dvd_step_le [OF dv threshold_dvd lt] .
  show ?thesis
  proof (cases e')
    case (Some err)
    then have s: "e = Some err" "st1 = st\<lparr>tmp_buffer := buf\<rparr>"
      using p Inr b by (simp_all add: process_line_def)
    have "length buf < threshold cfg cols" using k(2,4) Some room lt by auto
    then show ?thesis using s k(5) by simp
  next
    case None
    then have f: "flush_phase cfg cols buf st = (e, st1)"
      using p Inr b by (simp add: process_line_def)
    have le: "length buf \<le> threshold cfg cols" using k(1,2) room by simp
    have dvb: "length cols dvd length buf" using k(2,3) None dv by auto
    show ?thesis
    proof (cases "length buf = threshold cfg cols")
      case True
      then show ?thesis
        using f cols bs k(5) by (auto simp: flush_phase_def buffer_complete_threshold)
    next
      case False
      then have "e = None" "st1 = st\<lparr>tmp_buffer := buf\<rparr>"
        using f cols bs by (auto simp: flush_phase_def buffer_complete_threshold)
      then show ?thesis using False le dvb k(5) by simp
    qed
  qed
qed

lemma dataset_loop_any:
  assumes cols: "cols \<noteq> []" and bs: "1 \<le> buffer_size cfg"
  shows "dataset_loop bi cfg cols li file_lines st = (e, st') \<Longrightarrow>
         length (tmp_buffer st) < threshold cfg cols \<Longrightarrow>
         length cols dvd length (tmp_buffer st) \<Longrightarrow>
         set (tmp_buffer st) \<subseteq> range (py_str bi) \<Longrightarrow>
         length (tmp_buffer st') < threshold cfg cols
         \<and> (e = None \<longrightarrow> length cols dvd length (tmp_buffer st'))
         \<and> set (tmp_buffer st') \<subseteq> range (py_str bi)
         \<and> (\<exists>rows. nb_lines_built st' = nb_lines_built st + length rows
               \<and> output_file st' = write_rows (output_file st) (nb_lines_built st) rows
               \<and> (\<forall>r \<in> set rows. length r = threshold cfg cols \<and> set r \<subseteq> range (py_str bi)))"
proof (induction file_lines arbitrary: li st)
  case Nil
  then have "st' = st" "e = None" by simp_all
  then show ?case using Nil.prems by (auto intro: exI [of _ "[]"])
next
  case (Cons line rest)
  show ?case
  proof (cases "limit_reached (lines_to_build cfg) (nb_lines_built st)")
    case True
    then have "st' = st" "e = None" using Cons.prems(1) by simp_all
    then show ?thesis using Cons.prems by (auto intro: exI [of _ "[]"])
  next
    case False
    obtain e1 st1 where p: "process_line bi cfg cols li line st = (e1, st1)"
      by (cases "process_line bi cfg cols li line st")
    from process_line_any [OF p cols bs Cons.prems(2,3)]
    consider (flush) buf where "length buf = threshold cfg cols"
        "set buf \<subseteq> set (tmp_buffer st) \<union> range (py_str bi)" "e1 = None"
        "st1 = \<lparr>nb_lines_built = nb_lines_built st + 1, tmp_buffer = [],
                     output_file = (output_file st @ (if nb_lines_built st > 0 then [LF] else []))
                                     @ join_str '','' buf\<rparr>"
      | (keep) "length (tmp_buffer st1) < threshold cfg cols"
        "e1 = None \<longrightarrow> length cols dvd length (tmp_buffer st1)"
        "set (tmp_buffer st1) \<subseteq> set (tmp_buffer st) \<union> range (py_str bi)"
        "nb_lines_built st1 = nb_lines_built st" "output_file st1 = output_file st"
      by blast
    then show ?thesis
    proof cases
      case flush
      have rest: "dataset_loop bi cfg cols (li + 1) rest st1 = (e, st')"
        using Cons.prems(1) False p flush(3) by simp
      have pre: "length (tmp_buffer st1) < threshold cfg cols" "length cols dvd length (tmp_buffer st1)"
        "set (tmp_buffer st1) \<subseteq> range (py_str bi)"
        using flush(4) threshold_pos [OF cols bs] by simp_all
      from Cons.IH [OF rest pre] obtain rows where rows:
        "length (tmp_buffer st') < threshold cfg cols"
        "e = None \<longrightarrow> length cols dvd length (tmp_buffer st')"
        "set (tmp_buffer st') \<subseteq> range (py_str bi)"
        "nb_lines_built st' = nb_lines_built st1 + length rows"
        "output_file st' = write_rows (output_file st1) (nb_lines_built st1) rows"
        "\<forall>r \<in> set rows. length r = threshold cfg cols \<and> set r \<subseteq> range (py_str bi)"
        by blast
      have bufr: "set buf \<subseteq> range (py_str bi)" using flush(2) Cons.prems(4) by auto
      have "nb_lines_built st' = nb_lines_built st + length (buf # rows)"
        "output_file st' = write_rows (output_file st) (nb_lines_built st) (buf # rows)"
        "\<forall>r \<in> set (buf # rows). length r = threshold cfg cols \<and> set r \<subseteq> range (py_str bi)"
        using rows(4,5,6) flush(1,4) bufr by simp_all
      then show ?thesis using rows(1,2,3) by blast
    next
      case keep
      show ?thesis
      proof (cases e1)
        case (Some err)
        then have "e = Some err" "st' = st1" using Cons.prems(1) False p by simp_all
        then show ?thesis using keep Cons.prems(4) by (auto intro: exI [of _ "[]"])
      next
        case None
        have rest: "dataset_loop bi cfg cols (li + 1) rest st1 = (e, st')"
          using Cons.prems(1) False p None by simp
        have pre: "length (tmp_buffer st1) < threshold cfg cols" "length cols dvd length (tmp_buffer st1)"
          "set (tmp_buffer st1) \<subseteq> range (py_str bi)"
          using keep None Cons.prems(4) by auto
        from Cons.IH [OF rest pre] show ?thesis using keep(4,5) by simp
      qed
    qed
  qed
qed

lemma dataset_loop_stopped:
  "limit_reached (lines_to_build cfg) (nb_lines_built st) \<Longrightarrow>
     dataset_loop bi cfg cols li file_lines st = (None, st)"
  by (cases file_lines) simp_all

lemma dataset_loop_append:
  "dataset_loop bi cfg cols li (xs @ ys) st =
     (case dataset_loop bi cfg cols li xs st of
        (Some e, s) \<Rightarrow> (Some e, s)
      | (None, s) \<Rightarrow> dataset_loop bi cfg cols (li + int (length xs)) ys s)"
proof (induction xs arbitrary: li st)
  case Nil
  then show ?case by simp
next
  case (Cons x xs)
  show ?case
  proof (cases "limit_reached (lines_to_build cfg) (nb_lines_built st)")
    case True
    then show ?thesis by (simp add: dataset_loop_stopped)
  next
    case False
    obtain e1 st1 where p: "process_line bi cfg cols li x st = (e1, st1)"
      by (cases "process_line bi cfg cols li x st")
    show ?thesis
    proof (cases e1)
      case None
      have eq: "li + int (length (x # xs)) = li + 1 + int (length xs)" by simp
      show ?thesis unfolding eq using False p None Cons.IH [of "li + 1" st1] by simp
    next
      case (Some err)
      then show ?thesis using False p by simp
    qed
  qed
qed

lemma create_dataset_ok:
  assumes "create_dataset bi cfg file_lines cols = (None, st')" "cols \<noteq> []" "1 \<le> buffer_size cfg"
  shows "nb_lines_built st' = length (emitted_rows bi cfg cols file_lines)"
    and "output_file st' = render (emitted_rows bi cfg cols file_lines)"
    and "lines_to_build cfg = AllLines \<Longrightarrow>
           tmp_buffer st' =
             drop (threshold cfg cols * length (emitted_rows bi cfg cols file_lines))
               (value_stream bi cfg cols (start_index cfg) file_lines)"
proof -
  have l: "dataset_loop bi cfg cols (start_index cfg) file_lines initial_state = (None, st')"
    using assms(1) by (simp add: create_dataset_def start_index_def)
  have r: "loop_rows bi cfg cols (start_index cfg) file_lines initial_state
             = emitted_rows bi cfg cols file_lines"
    by (simp add: loop_rows_def emitted_rows_def initial_state_def)
  have pre: "length (tmp_buffer initial_state) < threshold cfg cols"
    "length cols dvd length (tmp_buffer initial_state)"
    using threshold_pos [OF assms(2,3)] by (simp_all add: initial_state_def)
  note k = dataset_loop_ok [OF assms(2,3) l pre, unfolded r]
  show "nb_lines_built st' = length (emitted_rows bi cfg cols file_lines)"
    using k by (simp add: initial_state_def)
  show "output_file st' = render (emitted_rows bi cfg cols file_lines)"
    using k by (simp add: initial_state_def write_rows_fresh)
  show "tmp_buffer st' =
             drop (threshold cfg cols * length (emitted_rows bi cfg cols file_lines))
               (value_stream bi cfg cols (start_index cfg) file_lines)"
    if "lines_to_build cfg = AllLines"
    using k that by (simp add: initial_state_def)
qed

lemma create_dataset_any:
  assumes "create_dataset bi cfg file_lines cols = (e, st')" "cols \<noteq> []" "1 \<le> buffer_size cfg"
  shows "length (tmp_buffer st') < threshold cfg cols
         \<and> (e = None \<longrightarrow> length cols dvd length (tmp_buffer st'))
         \<and> set (tmp_buffer st') \<subseteq> range (py_str bi)
         \<and> (\<exists>rows. nb_lines_built st' = length rows
               \<and> output_file st' = render rows
               \<and> (\<forall>r \<in> set rows. length r = threshold cfg cols \<and> set r \<subseteq> range (py_str bi)))"
proof -
  have l: "dataset_loop bi cfg cols (start_index cfg) file_lines initial_state = (e, st')"
    using assms(1) by (simp add: create_dataset_def start_index_def)
  have pre: "length (tmp_buffer initial_state) < threshold cfg cols"
    "length cols dvd length (tmp_buffer initial_state)"
    "set (tmp_buffer initial_state) \<subseteq> range (py_str bi)"
    using threshold_pos [OF assms(2,3)] by (simp_all add: initial_state_def)
  show ?thesis
    using dataset_loop_any [OF assms(2,3) l pre]
    by (simp add: initial_state_def write_rows_fresh)
qed

section \<open>The flush test\<close>

lemma flush_phase_threshold:
  assumes "cols \<noteq> []" "1 \<le> buffer_size cfg"
  shows "flush_phase cfg cols buf s =
           (None,
            if length buf = threshold cfg cols
            then \<lparr>nb_lines_built = nb_lines_built s + 1, tmp_buffer = [],
                  output_file = (output_file s @ (if nb_lines_built s > 0 then [LF] else []))
                                  @ join_str '','' buf\<rparr>
            else s\<lparr>tmp_buffer := buf\<rparr>)"
  using assms by (simp add: flush_phase_def buffer_complete_threshold)


section \<open>Lengths\<close>

lemma length_concat_uniform:
  "\<forall>xs \<in> set xss. length xs = k \<Longrightarrow> length (concat xss) = k * length xss"
  by (induction xss) auto

lemma length_value_stream:
  "length (value_stream bi cfg cols li file_lines) = length cols * length (sampled cfg li file_lines)"
  using length_concat_uniform [of "map (line_cells bi cfg cols) (sampled cfg li file_lines)" "length cols"]
  by (simp add: value_stream_def length_line_cells)

lemma length_stream_windows:
  assumes "cols \<noteq> []" "1 \<le> buffer_size cfg"
  shows "length (windows (threshold cfg cols) (value_stream bi cfg cols (start_index cfg) file_lines))
           = available_windows cfg file_lines"
proof -
  have "length (windows (threshold cfg cols) (value_stream bi cfg cols (start_index cfg) file_lines))
          = (length cols * length (sampled cfg (start_index cfg) file_lines))
              div (length cols * nat (buffer_size cfg))"
    using threshold_pos [OF assms] by (simp add: length_windows length_value_stream threshold_def)
  also have "\<dots> = length (sampled cfg (start_index cfg) file_lines) div nat (buffer_size cfg)"
    using assms(1) by simp
  finally show ?thesis by (simp add: available_windows_def)
qed

lemma length_emitted_rows:
  assumes "cols \<noteq> []" "1 \<le> buffer_size cfg"
  shows "length (emitted_rows bi cfg cols file_lines) =
           (case lines_to_build cfg of
              AllLines \<Rightarrow> available_windows cfg file_lines
            | Lines l \<Rightarrow> min (nat l) (available_windows cfg file_lines))"
  using length_stream_windows [OF assms, of bi file_lines]
  by (simp add: emitted_rows_def limit_take_def min.commute split: lines_limit.splits)


section \<open>The order of the values in a row\<close>

lemma windows_concat:
  assumes "0 < k"
  shows "0 < b \<Longrightarrow> \<forall>xs \<in> set xss. length xs = k \<Longrightarrow>
           windows (k * b) (concat xss) = map concat (windows b xss)"
proof (induction b xss rule: windows.induct)
  case (1 b xss)
  have len: "length (concat xss) = k * length xss"
    using 1(3) by (rule length_concat_uniform)
  show ?case
  proof (cases "length xss < b")
    case True
    then have "length (concat xss) < k * b" using len assms by simp
    then show ?thesis using True by (simp add: windows_short)
  next
    case False
    have b0: "\<not> (b = 0 \<or> length xss < b)" using False 1(2) by simp
    have w: "windows b xss = take b xss # windows b (drop b xss)"
      using b0 by (subst windows.simps) simp
    have "\<forall>xs \<in> set (take b xss). length xs = k" using 1(3) by (auto dest: in_set_takeD)
    then have lt: "length (concat (take b xss)) = k * b"
      using length_concat_uniform [of "take b xss" k] False by simp
    have dr: "\<forall>xs \<in> set (drop b xss). length xs = k" using 1(3) by (auto dest: in_set_dropD)
    have kb: "0 < k * b" using assms 1(2) by simp
    have "concat xss = concat (take b xss) @ concat (drop b xss)"
      by (metis append_take_drop_id concat_append)
    then have "windows (k * b) (concat xss)
                 = concat (take b xss) # windows (k * b) (concat (drop b xss))"
      using windows_block [OF lt kb] by simp
    also have "\<dots> = concat (take b xss) # map concat (windows b (drop b xss))"
      using 1(1) [OF b0 1(2) dr] by simp
    finally show ?thesis using w by simp
  qed
qed

lemma limit_take_map: "limit_take ltb nb (map f rows) = map f (limit_take ltb nb rows)"
  by (cases ltb) (simp_all add: limit_take_def take_map)

text \<open>
  Claim C1 fails as stated: the values of one line are appended to the buffer column after
  column before the next line is read (lines 163-171), so a row holds the values line by
  line, not column by column. With two columns and a buffer size of 3, the lines below give
  \<open>1.0, 2.0, 3.0\<close> in the first column and \<open>4.5, 5.5, 6.5\<close> in the second, and the row written
  is \<open>1.0,4.5,2.0,5.5,3.0,6.5\<close>.
\<close>

theorem column_major_counterexample:
  "map (\<lambda>line. cell sample_builtins sample_config (fields sample_config line) 0) three_lines
     = [''1.0'', ''2.0'', ''3.0'']
   \<and> map (\<lambda>line. cell sample_builtins sample_config (fields sample_config line) 1) three_lines
     = [''4.5'', ''5.5'', ''6.5'']
   \<and> create_dataset sample_builtins sample_config three_lines [0, 1]
     = (None, \<lparr>nb_lines_built = 1, tmp_buffer = [], output_file = ''1.0,4.5,2.0,5.5,3.0,6.5''\<rparr>)
   \<and> output_file (snd (create_dataset sample_builtins sample_config three_lines [0, 1]))
     \<noteq> ''1.0,2.0,3.0,4.5,5.5,6.5''"
  by code_simp

text \<open>
  Claim C1, amended. When \<open>create_dataset\<close> ends without error (at least one column,
  buffer size \<open>B\<close> at least 1), the output is the rendering of these rows: the sampled lines
  are taken \<open>B\<close> at a time, in order, up to the row limit, and each group of \<open>B\<close> lines gives
  one row, which is the values of the selected columns of its first line in selector order,
  then those of its second line, and so on.
\<close>

theorem rows_interleave_columns:
  assumes "create_dataset bi cfg file_lines cols = (None, st')"
    and "cols \<noteq> []" and "1 \<le> buffer_size cfg"
  shows "output_file st' =
           render (map concat
             (limit_take (lines_to_build cfg) 0
                (windows (nat (buffer_size cfg))
                   (map (\<lambda>line. map (cell bi cfg (fields cfg line)) cols)
                      (sampled cfg (start_index cfg) file_lines)))))"
proof -
  let ?rows = "map (\<lambda>line. map (cell bi cfg (fields cfg line)) cols)
                 (sampled cfg (start_index cfg) file_lines)"
  have u: "\<forall>xs \<in> set ?rows. length xs = length cols" by auto
  have k: "0 < length cols" "0 < nat (buffer_size cfg)" using assms(2,3) by simp_all
  have "value_stream bi cfg cols (start_index cfg) file_lines = concat ?rows"
    by (simp add: value_stream_def line_cells_def [abs_def])
  then have "emitted_rows bi cfg cols file_lines
               = limit_take (lines_to_build cfg) 0
                   (map concat (windows (nat (buffer_size cfg)) ?rows))"
    using windows_concat [OF k u] by (simp add: emitted_rows_def threshold_def)
  then show ?thesis
    using create_dataset_ok(2) [OF assms] by (simp add: limit_take_map)
qed

theorem rows_interleave_columns_witness:
  "output_file \<lparr>nb_lines_built = 1, tmp_buffer = [], output_file = ''1.0,4.5,2.0,5.5,3.0,6.5''\<rparr>
     = render (map concat
         (limit_take (lines_to_build sample_config) 0
            (windows (nat (buffer_size sample_config))
               (map (\<lambda>line. map (cell sample_builtins sample_config (fields sample_config line)) [0, 1])
                  (sampled sample_config (start_index sample_config) three_lines)))))
   \<and> map (\<lambda>line. map (cell sample_builtins sample_config (fields sample_config line)) [0, 1])
         (sampled sample_config (start_index sample_config) three_lines)
       = [[''1.0'', ''4.5''], [''2.0'', ''5.5''], [''3.0'', ''6.5'']]"
proof -
  have h1: "create_dataset sample_builtins sample_config three_lines [0, 1]
     = (None, \<lparr>nb_lines_built = 1, tmp_buffer = [], output_file = ''1.0,4.5,2.0,5.5,3.0,6.5''\<rparr>)"
    by code_simp
  have h2: "[0, 1] \<noteq> ([]::int list)" by simp
  have h3: "1 \<le> buffer_size sample_config" by (simp add: sample_config_def)
  have c: "map (\<lambda>line. map (cell sample_builtins sample_config (fields sample_config line)) [0, 1])
         (sampled sample_config (start_index sample_config) three_lines)
       = [[''1.0'', ''4.5''], [''2.0'', ''5.5''], [''3.0'', ''6.5'']]"
    by code_simp
  show ?thesis
    using rows_interleave_columns [OF h1 h2 h3] c by simp
qed

section \<open>Downsampling\<close>

lemma sampled_nths:
  "sampled cfg li file_lines = nths file_lines {k. (li + int k) mod downsample_factor cfg = 0}"
proof (induction file_lines arbitrary: li)
  case Nil
  then show ?case by simp
next
  case (Cons line rest)
  have "{j. (li + int (Suc j)) mod downsample_factor cfg = 0}
          = {k. (li + 1 + int k) mod downsample_factor cfg = 0}"
    by (intro Collect_cong) (simp add: algebra_simps)
  then show ?case using Cons.IH [of "li + 1"] by (simp add: nths_Cons)
qed

lemma sampled_from_input:
  "sampled cfg (start_index cfg) (if has_headers cfg then tl inp else inp)
     = nths inp {k. sampled_position cfg k}"
proof (cases "has_headers cfg")
  case False
  then show ?thesis
    by (simp add: sampled_nths start_index_def sampled_position_def algebra_simps)
next
  case True
  show ?thesis
  proof (cases inp)
    case Nil
    then show ?thesis using True by simp
  next
    case (Cons h rest)
    have "{j. Suc j \<in> {k. sampled_position cfg k}} = {k. (2 + int k) mod downsample_factor cfg = 0}"
      using True by (simp add: sampled_position_def algebra_simps)
    then show ?thesis
      using True Cons by (simp add: sampled_nths start_index_def nths_Cons sampled_position_def)
  qed
qed

lemma sampled_all: "downsample_factor cfg = 1 \<Longrightarrow> sampled cfg li file_lines = file_lines"
  by (induction file_lines arbitrary: li) simp_all

lemma length_resolve_labels:
  "resolve_labels hs sels acc = Inr r \<Longrightarrow> length r = length acc + length sels"
  by (induction sels arbitrary: acc) (auto split: option.splits)

lemma length_resolve_ints:
  "list_all is_int sels \<Longrightarrow> length (resolve_ints sels acc) = length acc + length sels"
  by (induction sels acc rule: resolve_ints.induct) auto

lemma get_columns_nonempty:
  "get_columns_indexes_to_keep cfg headers = Inr cols \<Longrightarrow> cols \<noteq> []"
proof
  assume g: "get_columns_indexes_to_keep cfg headers = Inr cols" and e: "cols = []"
  have ne: "columns_to_keep cfg \<noteq> []"
    using g by (auto simp: get_columns_indexes_to_keep_def split: if_splits)
  show False
  proof (cases "list_all is_int (columns_to_keep cfg)")
    case True
    then have "cols = resolve_ints (columns_to_keep cfg) []"
      using g ne by (simp add: get_columns_indexes_to_keep_def)
    then show False using length_resolve_ints [OF True, of "[]"] e ne by simp
  next
    case False
    then obtain hs where "resolve_labels hs (columns_to_keep cfg) [] = Inr cols"
      using g ne by (auto simp: get_columns_indexes_to_keep_def split: if_splits option.splits)
    then show False using length_resolve_labels [of hs "columns_to_keep cfg" "[]" cols] e ne by simp
  qed
qed

lemma get_headers_data:
  "get_headers bi cfg inp = Inr (headers, data, warned) \<Longrightarrow>
     data = (if has_headers cfg then tl inp else inp)"
  by (auto simp: get_headers_def Let_def split: if_splits sum.splits list.splits)

lemma windows_leftover:
  "0 < n \<Longrightarrow> concat (windows n xs) @ drop (n * length (windows n xs)) xs = xs"
  by (simp add: concat_windows length_windows)

text \<open>
  Claim C4. When the main sequence ends without error (buffer size at least 1), the lines
  that give values are exactly the lines of the input file, other than a header line,
  whose line number counted from 1 in the whole file is a multiple of the downsample
  factor: the rows written are cut from the values of these lines, and without a row limit
  the values written and the values left in the buffer are together the values of these
  lines. With factor 1 these are all the data lines. A line whose index is not a
  multiple of the factor leaves the buffer as it is.
\<close>

theorem sampling_by_line_index:
  assumes "main_sequence bi cfg inp = (None, st')" and "1 \<le> buffer_size cfg"
    and "get_headers bi cfg inp = Inr (headers, data, warned)"
    and "get_columns_indexes_to_keep cfg headers = Inr cols"
  shows "sampled cfg (start_index cfg) data = nths inp {k. sampled_position cfg k}
       \<and> output_file st' =
           render (limit_take (lines_to_build cfg) 0
             (windows (threshold cfg cols)
                (concat (map (line_cells bi cfg cols) (nths inp {k. sampled_position cfg k})))))
       \<and> (lines_to_build cfg = AllLines \<longrightarrow>
            concat (windows (threshold cfg cols)
                      (concat (map (line_cells bi cfg cols) (nths inp {k. sampled_position cfg k}))))
              @ tmp_buffer st'
            = concat (map (line_cells bi cfg cols) (nths inp {k. sampled_position cfg k})))
       \<and> (downsample_factor cfg = 1 \<longrightarrow> nths inp {k. sampled_position cfg k} = data)
       \<and> (\<forall>li vals buf. downsample_factor cfg \<noteq> 0 \<and> li mod downsample_factor cfg \<noteq> 0 \<longrightarrow>
            build_phase bi cfg cols li vals buf = (None, buf))"
proof -
  let ?used = "nths inp {k. sampled_position cfg k}"
  let ?n = "threshold cfg cols"
  have ne: "cols \<noteq> []" using assms(4) by (rule get_columns_nonempty)
  have cd: "create_dataset bi cfg data cols = (None, st')"
    using assms(1,3,4) by (simp add: main_sequence_def)
  have s: "sampled cfg (start_index cfg) data = ?used"
    using get_headers_data [OF assms(3)] sampled_from_input [of cfg inp] by simp
  have stream: "value_stream bi cfg cols (start_index cfg) data
                  = concat (map (line_cells bi cfg cols) ?used)"
    using s by (simp add: value_stream_def)
  have rows: "emitted_rows bi cfg cols data
                = limit_take (lines_to_build cfg) 0
                    (windows ?n (concat (map (line_cells bi cfg cols) ?used)))"
    using stream by (simp add: emitted_rows_def)
  have out: "output_file st' =
           render (limit_take (lines_to_build cfg) 0
             (windows ?n (concat (map (line_cells bi cfg cols) ?used))))"
    using create_dataset_ok(2) [OF cd ne assms(2)] rows by simp
  have left: "concat (windows ?n (concat (map (line_cells bi cfg cols) ?used))) @ tmp_buffer st'
            = concat (map (line_cells bi cfg cols) ?used)"
    if "lines_to_build cfg = AllLines"
    using create_dataset_ok(3) [OF cd ne assms(2) that] rows stream that
      windows_leftover [OF threshold_pos [OF ne assms(2)]]
    by (simp add: limit_take_def)
  have one: "downsample_factor cfg = 1 \<longrightarrow> ?used = data"
    using s sampled_all [of cfg "start_index cfg" data] by auto
  have skip: "\<forall>li vals buf. downsample_factor cfg \<noteq> 0 \<and> li mod downsample_factor cfg \<noteq> 0 \<longrightarrow>
            build_phase bi cfg cols li vals buf = (None, buf)"
    by (simp add: build_phase_def)
  show ?thesis using s out left one skip by blast
qed

theorem sampling_by_line_index_witness:
  "main_sequence sample_builtins every_other_config sample_lines
     = (None, \<lparr>nb_lines_built = 2, tmp_buffer = [], output_file = ''2.0,5.5'' @ [LF] @ ''7.0,8.0''\<rparr>)
   \<and> nths sample_lines {k. sampled_position every_other_config k} = [''2.0,5.5'' @ [CR, LF], ''7,8'']
   \<and> sampled every_other_config 1 sample_lines = [''2.0,5.5'' @ [CR, LF], ''7,8'']
   \<and> nths sample_lines {k. sampled_position sample_config k} = sample_lines
   \<and> nths (''T,X,Y'' # sample_lines) {k. sampled_position (every_other_config\<lparr>has_headers := True\<rparr>) k}
       = [''1.0,4.5'' @ [LF], ''3.0,6.5'' @ [LF]]"
proof -
  have h1: "main_sequence sample_builtins every_other_config sample_lines
     = (None, \<lparr>nb_lines_built = 2, tmp_buffer = [], output_file = ''2.0,5.5'' @ [LF] @ ''7.0,8.0''\<rparr>)"
    by code_simp
  have h2: "1 \<le> buffer_size every_other_config" by (simp add: every_other_config_def)
  have h3: "get_headers sample_builtins every_other_config sample_lines = Inr (None, sample_lines, False)"
    by code_simp
  have h4: "get_columns_indexes_to_keep every_other_config None = Inr [0, 1]"
    by code_simp
  have g1: "main_sequence sample_builtins sample_config sample_lines
     = (None, \<lparr>nb_lines_built = 1, tmp_buffer = [''7.0'', ''8.0''],
               output_file = ''1.0,4.5,2.0,5.5,3.0,6.5''\<rparr>)"
    by code_simp
  have g2: "1 \<le> buffer_size sample_config" "downsample_factor sample_config = 1"
    by (simp_all add: sample_config_def)
  have g3: "get_headers sample_builtins sample_config sample_lines = Inr (None, sample_lines, False)"
    by code_simp
  have g4: "get_columns_indexes_to_keep sample_config None = Inr [0, 1]"
    by code_simp
  have s: "sampled every_other_config 1 sample_lines = [''2.0,5.5'' @ [CR, LF], ''7,8'']"
    "start_index every_other_config = 1"
    by code_simp+
  have t: "nths (''T,X,Y'' # sample_lines) {k. sampled_position (every_other_config\<lparr>has_headers := True\<rparr>) k}
       = [''1.0,4.5'' @ [LF], ''3.0,6.5'' @ [LF]]"
    by (simp add: nths_Cons sample_lines_def sampled_position_def every_other_config_def sample_config_def)
  show ?thesis
    using sampling_by_line_index [OF h1 h2 h3 h4] sampling_by_line_index [OF g1 g2(1) g3 g4]
      h1 g2(2) s t
    by simp
qed

section \<open>The bytes of the output\<close>

lemma join_str_Cons_concat: "join_str sep (x # xs) = x @ concat (map (\<lambda>y. sep @ y) xs)"
  by (induction xs arbitrary: x) simp_all

lemma join_str_last:
  "xs \<noteq> [] \<Longrightarrow> last xs \<noteq> [] \<Longrightarrow>
     join_str sep xs \<noteq> [] \<and> last (join_str sep xs) = last (last xs)"
  by (induction sep xs rule: join_str.induct) auto

lemma render_last:
  assumes "rows \<noteq> []"
    and "\<forall>r \<in> set rows. r \<noteq> [] \<and> (\<forall>v \<in> set r. v \<noteq> [] \<and> last v \<noteq> LF)"
  shows "render rows \<noteq> [] \<and> last (render rows) \<noteq> LF"
proof -
  let ?ls = "map (join_str '','') rows"
  have r: "last rows \<in> set rows" using assms(1) by simp
  then have lr: "last rows \<noteq> []" "last (last rows) \<noteq> []" "last (last (last rows)) \<noteq> LF"
    using assms(2) by (auto simp: last_in_set)
  have j: "join_str '','' (last rows) \<noteq> []"
    "last (join_str '','' (last rows)) = last (last (last rows))"
    using join_str_last [OF lr(1,2)] by simp_all
  have l: "?ls \<noteq> []" "last ?ls = join_str '','' (last rows)"
    using assms(1) by (simp_all add: last_map)
  have "join_str [LF] ?ls \<noteq> [] \<and> last (join_str [LF] ?ls) = last (last ?ls)"
    using l j by (intro join_str_last) simp_all
  then show ?thesis using l j lr by (simp add: render_def)
qed

text \<open>
  Claim C5. When \<open>create_dataset\<close> ends without error (at least one column, buffer size
  at least 1), the output file holds one line per completed window, in order: the first
  line with nothing before it, every later line preceded by one newline character, a line
  being the comma-joined texts of the window. There are as many lines as rows counted;
  every text of a line is \<open>str\<close> of a float that was buffered. As \<open>str\<close> of a float is
  never empty and never ends in a newline, the file does not end in a newline.
\<close>

theorem output_format:
  assumes "create_dataset bi cfg file_lines cols = (None, st')"
    and "cols \<noteq> []" and "1 \<le> buffer_size cfg"
    and "\<forall>x. py_str bi x \<noteq> [] \<and> last (py_str bi x) \<noteq> LF"
  shows "output_file st' =
           (case emitted_rows bi cfg cols file_lines of
              [] \<Rightarrow> []
            | r # rs \<Rightarrow> join_str '','' r @ concat (map (\<lambda>r'. [LF] @ join_str '','' r') rs))
       \<and> length (emitted_rows bi cfg cols file_lines) = nb_lines_built st'
       \<and> (\<exists>rows. output_file st' = join_str [LF] (map (join_str '','') rows)
             \<and> length rows = nb_lines_built st'
             \<and> (\<forall>r \<in> set rows. length r = threshold cfg cols
                   \<and> (\<forall>v \<in> set r. \<exists>x. v = py_str bi x)))
       \<and> (output_file st' = [] \<or> last (output_file st') \<noteq> LF)"
proof -
  have a: "output_file st' =
           (case emitted_rows bi cfg cols file_lines of
              [] \<Rightarrow> []
            | r # rs \<Rightarrow> join_str '','' r @ concat (map (\<lambda>r'. [LF] @ join_str '','' r') rs))"
    using create_dataset_ok(2) [OF assms(1,2,3)]
    by (cases "emitted_rows bi cfg cols file_lines")
       (simp_all add: render_def join_str_Cons_concat comp_def)
  have b: "length (emitted_rows bi cfg cols file_lines) = nb_lines_built st'"
    using create_dataset_ok(1) [OF assms(1,2,3)] by simp
  from create_dataset_any [OF assms(1,2,3)] obtain rows where rows:
    "nb_lines_built st' = length rows" "output_file st' = render rows"
    "\<forall>r \<in> set rows. length r = threshold cfg cols \<and> set r \<subseteq> range (py_str bi)"
    by blast
  have c: "\<exists>rows. output_file st' = join_str [LF] (map (join_str '','') rows)
             \<and> length rows = nb_lines_built st'
             \<and> (\<forall>r \<in> set rows. length r = threshold cfg cols
                   \<and> (\<forall>v \<in> set r. \<exists>x. v = py_str bi x))"
    using rows by (intro exI [of _ rows]) (auto simp: render_def)
  have d: "output_file st' = [] \<or> last (output_file st') \<noteq> LF"
  proof (cases "rows = []")
    case True
    then show ?thesis using rows(2) by (simp add: render_def)
  next
    case False
    have "\<forall>r \<in> set rows. r \<noteq> [] \<and> (\<forall>v \<in> set r. v \<noteq> [] \<and> last v \<noteq> LF)"
    proof
      fix r assume r: "r \<in> set rows"
      then have lr: "length r = threshold cfg cols" "set r \<subseteq> range (py_str bi)" using rows(3) by auto
      have ne: "r \<noteq> []" using lr(1) threshold_pos [OF assms(2,3)] by auto
      have "v \<noteq> [] \<and> last v \<noteq> LF" if vr: "v \<in> set r" for v
      proof -
        obtain x where "v = py_str bi x" using vr lr(2) by auto
        then show ?thesis using assms(4) by simp
      qed
      then show "r \<noteq> [] \<and> (\<forall>v \<in> set r. v \<noteq> [] \<and> last v \<noteq> LF)"
        using ne by blast
    qed
    from render_last [OF False this] show ?thesis using rows(2) by simp
  qed
  show ?thesis using a b c d by blast
qed

lemma digit_not_LF: "k < 10 \<Longrightarrow> ''0123456789'' ! k \<noteq> LF"
proof -
  assume "k < 10"
  then have "''0123456789'' ! k \<in> set ''0123456789''" by (intro nth_mem) simp
  then show ?thesis by (auto simp: LF_def)
qed

lemma digits_last: "digits n \<noteq> [] \<and> last (digits n) \<noteq> LF"
  by (subst (1 2) digits.simps) (simp add: digit_not_LF)

lemma sample_py_str: "\<forall>x. py_str sample_builtins x \<noteq> [] \<and> last (py_str sample_builtins x) \<noteq> LF"
  using digits_last by (simp add: sample_builtins_def)

theorem output_format_witness:
  "output_file \<lparr>nb_lines_built = 2, tmp_buffer = [], output_file = ''1.0,4.5'' @ [LF] @ ''2.0,5.5''\<rparr>
     = (case emitted_rows sample_builtins two_rows_config [0, 1] sample_lines of
              [] \<Rightarrow> []
            | r # rs \<Rightarrow> join_str '','' r @ concat (map (\<lambda>r'. [LF] @ join_str '','' r') rs))
   \<and> emitted_rows sample_builtins two_rows_config [0, 1] sample_lines
       = [[''1.0'', ''4.5''], [''2.0'', ''5.5'']]
   \<and> last (''1.0,4.5'' @ [LF] @ ''2.0,5.5'') \<noteq> LF"
proof -
  have h1: "create_dataset sample_builtins two_rows_config sample_lines [0, 1]
     = (None, \<lparr>nb_lines_built = 2, tmp_buffer = [], output_file = ''1.0,4.5'' @ [LF] @ ''2.0,5.5''\<rparr>)"
    by code_simp
  have h2: "[0, 1] \<noteq> ([]::int list)" by simp
  have h3: "1 \<le> buffer_size two_rows_config" by (simp add: two_rows_config_def)
  have e: "emitted_rows sample_builtins two_rows_config [0, 1] sample_lines
       = [[''1.0'', ''4.5''], [''2.0'', ''5.5'']]"
    by code_simp
  show ?thesis
    using output_format [OF h1 h2 h3 sample_py_str] e by simp
qed

section \<open>The end of the input\<close>

lemma build_buffer_fst:
  "fst (build_buffer bi cfg li vals cols buf) = fst (build_buffer bi cfg li vals cols buf')"
proof (induction cols arbitrary: buf buf')
  case Nil
  then show ?case by simp
next
  case (Cons idx rest)
  show ?case
    using Cons.IH by (auto split: sum.splits)
qed

lemma build_phase_fst:
  "fst (build_phase bi cfg cols li vals buf) = fst (build_phase bi cfg cols li vals [])"
  using build_buffer_fst [of bi cfg li vals cols buf "[]"] by (simp add: build_phase_def)

lemma process_line_succeeds:
  assumes "cols \<noteq> []" "read_values_of_line cfg line = Inr vals"
    "fst (build_phase bi cfg cols li vals []) = None"
  shows "fst (process_line bi cfg cols li line st) = None"
proof -
  obtain e buf where b: "build_phase bi cfg cols li vals (tmp_buffer st) = (e, buf)"
    by (cases "build_phase bi cfg cols li vals (tmp_buffer st)")
  have "e = None"
    using build_phase_fst [of bi cfg cols li vals "tmp_buffer st"] b assms(3) by simp
  then show ?thesis
    using assms(1,2) b by (simp add: process_line_def flush_phase_def)
qed

lemma dataset_loop_succeeds:
  "cols \<noteq> [] \<Longrightarrow> lines_ok bi cfg cols li file_lines \<Longrightarrow>
     fst (dataset_loop bi cfg cols li file_lines st) = None"
proof (induction file_lines arbitrary: li st)
  case Nil
  then show ?case by simp
next
  case (Cons line rest)
  obtain vals where v: "read_values_of_line cfg line = Inr vals"
    "fst (build_phase bi cfg cols li vals []) = None"
    using Cons.prems(2) by (auto split: sum.splits)
  have ok: "lines_ok bi cfg cols (li + 1) rest" using Cons.prems(2) by simp
  obtain e1 st1 where p: "process_line bi cfg cols li line st = (e1, st1)"
    by (cases "process_line bi cfg cols li line st")
  have "e1 = None" using process_line_succeeds [OF Cons.prems(1) v, of st] p by simp
  then show ?case using p Cons.IH [OF Cons.prems(1) ok, of st1] by simp
qed

text \<open>
  Claim C10. When every line of the input can be read and converted (at least one column,
  buffer size at least 1), \<open>create_dataset\<close> ends without error, the counter is the number
  of rows written and the output holds the complete windows only. Without a row limit
  the counter is the number of complete windows, and the values that follow the last
  complete window, fewer than a window, are left in the buffer: they are neither written
  nor reported. A loop that finds no line left returns its state as it is, without error,
  whatever the buffer holds.
\<close>

theorem partial_window_discarded:
  assumes "cols \<noteq> []" and "1 \<le> buffer_size cfg"
    and "lines_ok bi cfg cols (start_index cfg) file_lines"
  shows "(\<exists>st'. create_dataset bi cfg file_lines cols = (None, st')
            \<and> nb_lines_built st' = length (emitted_rows bi cfg cols file_lines)
            \<and> output_file st' = render (emitted_rows bi cfg cols file_lines)
            \<and> (lines_to_build cfg = AllLines \<longrightarrow>
                  nb_lines_built st' = available_windows cfg file_lines
                  \<and> tmp_buffer st' =
                      drop (threshold cfg cols * available_windows cfg file_lines)
                        (value_stream bi cfg cols (start_index cfg) file_lines)
                  \<and> length (tmp_buffer st') =
                      (length cols * length (sampled cfg (start_index cfg) file_lines))
                        mod threshold cfg cols))
       \<and> (\<forall>li st. dataset_loop bi cfg cols li [] st = (None, st))"
proof -
  obtain e st' where r: "create_dataset bi cfg file_lines cols = (e, st')"
    by (cases "create_dataset bi cfg file_lines cols")
  have "fst (create_dataset bi cfg file_lines cols) = None"
    using dataset_loop_succeeds [OF assms(1), of bi cfg "start_index cfg" file_lines initial_state]
      assms(3)
    by (simp add: create_dataset_def start_index_def)
  then have ok: "create_dataset bi cfg file_lines cols = (None, st')" using r by simp
  note k = create_dataset_ok [OF ok assms(1,2)]
  have all: "nb_lines_built st' = available_windows cfg file_lines
                  \<and> tmp_buffer st' =
                      drop (threshold cfg cols * available_windows cfg file_lines)
                        (value_stream bi cfg cols (start_index cfg) file_lines)
                  \<and> length (tmp_buffer st') =
                      (length cols * length (sampled cfg (start_index cfg) file_lines))
                        mod threshold cfg cols"
    if a: "lines_to_build cfg = AllLines"
  proof -
    have n: "length (emitted_rows bi cfg cols file_lines) = available_windows cfg file_lines"
      using length_emitted_rows [OF assms(1,2), of bi file_lines] a by simp
    have w: "available_windows cfg file_lines
               = (length cols * length (sampled cfg (start_index cfg) file_lines))
                   div threshold cfg cols"
      using assms(1) by (simp add: available_windows_def threshold_def)
    have t: "tmp_buffer st' =
                      drop (threshold cfg cols * available_windows cfg file_lines)
                        (value_stream bi cfg cols (start_index cfg) file_lines)"
      using k(3) [OF a] n by simp
    have "length (tmp_buffer st') =
            length cols * length (sampled cfg (start_index cfg) file_lines)
              - threshold cfg cols * available_windows cfg file_lines"
      using t by (simp add: length_value_stream)
    also have "\<dots> = (length cols * length (sampled cfg (start_index cfg) file_lines))
                        mod threshold cfg cols"
      unfolding w by (simp add: minus_mult_div_eq_mod)
    finally show ?thesis using k(1) n t by simp
  qed
  have "\<exists>st'. create_dataset bi cfg file_lines cols = (None, st')
            \<and> nb_lines_built st' = length (emitted_rows bi cfg cols file_lines)
            \<and> output_file st' = render (emitted_rows bi cfg cols file_lines)
            \<and> (lines_to_build cfg = AllLines \<longrightarrow>
                  nb_lines_built st' = available_windows cfg file_lines
                  \<and> tmp_buffer st' =
                      drop (threshold cfg cols * available_windows cfg file_lines)
                        (value_stream bi cfg cols (start_index cfg) file_lines)
                  \<and> length (tmp_buffer st') =
                      (length cols * length (sampled cfg (start_index cfg) file_lines))
                        mod threshold cfg cols)"
    using ok k(1,2) all by (intro exI [of _ st']) blast
  then show ?thesis by simp
qed

theorem partial_window_discarded_witness:
  "lines_ok sample_builtins sample_config [0, 1] (start_index sample_config) sample_lines
   \<and> create_dataset sample_builtins sample_config sample_lines [0, 1]
     = (None, \<lparr>nb_lines_built = 1, tmp_buffer = [''7.0'', ''8.0''],
               output_file = ''1.0,4.5,2.0,5.5,3.0,6.5''\<rparr>)
   \<and> render (emitted_rows sample_builtins sample_config [0, 1] sample_lines)
     = ''1.0,4.5,2.0,5.5,3.0,6.5''
   \<and> (length [0, 1 :: int] * length (sampled sample_config (start_index sample_config) sample_lines))
        mod threshold sample_config [0, 1] = 2"
proof -
  have h1: "[0, 1] \<noteq> ([]::int list)" by simp
  have h2: "1 \<le> buffer_size sample_config" by (simp add: sample_config_def)
  have h3: "lines_ok sample_builtins sample_config [0, 1] (start_index sample_config) sample_lines"
    by code_simp
  have c: "create_dataset sample_builtins sample_config sample_lines [0, 1]
     = (None, \<lparr>nb_lines_built = 1, tmp_buffer = [''7.0'', ''8.0''],
               output_file = ''1.0,4.5,2.0,5.5,3.0,6.5''\<rparr>)"
    by code_simp
  have a: "lines_to_build sample_config = AllLines" by (simp add: sample_config_def)
  from partial_window_discarded [OF h1 h2 h3] a obtain st' where st:
    "create_dataset sample_builtins sample_config sample_lines [0, 1] = (None, st')"
    "output_file st' = render (emitted_rows sample_builtins sample_config [0, 1] sample_lines)"
    "length (tmp_buffer st') =
       (length [0, 1 :: int] * length (sampled sample_config (start_index sample_config) sample_lines))
         mod threshold sample_config [0, 1]"
    by blast
  have e: "st' = \<lparr>nb_lines_built = 1, tmp_buffer = [''7.0'', ''8.0''],
               output_file = ''1.0,4.5,2.0,5.5,3.0,6.5''\<rparr>"
    using st(1) c by simp
  have r: "render (emitted_rows sample_builtins sample_config [0, 1] sample_lines)
             = ''1.0,4.5,2.0,5.5,3.0,6.5''"
    using st(2) unfolding e by simp
  have m: "(length [0, 1 :: int] * length (sampled sample_config (start_index sample_config) sample_lines))
        mod threshold sample_config [0, 1] = 2"
    by code_simp
  show ?thesis using h3 c r m by blast
qed

section \<open>Rows and newlines\<close>

lemma windows_set: "r \<in> set (windows n xs) \<Longrightarrow> set r \<subseteq> set xs"
proof (induction n xs rule: windows.induct)
  case (1 n xs)
  show ?case
  proof (cases "n = 0 \<or> length xs < n")
    case True
    then show ?thesis using 1(2) by (simp add: windows.simps)
  next
    case False
    then have "windows n xs = take n xs # windows n (drop n xs)"
      by (subst windows.simps) simp
    then consider "r = take n xs" | "r \<in> set (windows n (drop n xs))" using 1(2) by auto
    then show ?thesis
    proof cases
      case 1
      then show ?thesis by (simp add: set_take_subset)
    next
      case 2
      then have "set r \<subseteq> set (drop n xs)" using "1.IH" False by simp
      then show ?thesis using set_drop_subset [of n xs] by blast
    qed
  qed
qed

lemma limit_take_subset: "set (limit_take ltb nb rows) \<subseteq> set rows"
  by (cases ltb) (auto simp: limit_take_def dest: in_set_takeD)

lemma emitted_rows_lengths:
  "r \<in> set (emitted_rows bi cfg cols file_lines) \<Longrightarrow> length r = threshold cfg cols"
proof -
  assume "r \<in> set (emitted_rows bi cfg cols file_lines)"
  then have "r \<in> set (windows (threshold cfg cols)
                         (value_stream bi cfg cols (start_index cfg) file_lines))"
    using limit_take_subset [of "lines_to_build cfg" 0
        "windows (threshold cfg cols) (value_stream bi cfg cols (start_index cfg) file_lines)"]
    by (auto simp: emitted_rows_def)
  then show ?thesis by (rule windows_lengths)
qed

lemma process_line_error:
  "process_line bi cfg cols li line st = (Some e1, st1) \<Longrightarrow>
     nb_lines_built st1 = nb_lines_built st \<and> output_file st1 = output_file st"
  by (auto simp: process_line_def flush_phase_def split: sum.splits option.splits if_splits prod.splits)

lemma cell_no_LF: "\<forall>x. LF \<notin> set (py_str bi x) \<Longrightarrow> LF \<notin> set (cell bi cfg vals idx)"
  by (auto simp: cell_def split: sum.splits option.splits)

lemma value_stream_no_LF:
  "\<forall>x. LF \<notin> set (py_str bi x) \<Longrightarrow> v \<in> set (value_stream bi cfg cols li file_lines) \<Longrightarrow>
     LF \<notin> set v"
  by (auto simp: value_stream_def line_cells_def cell_no_LF)

lemma join_str_set: "set (join_str sep xs) \<subseteq> set sep \<union> \<Union> (set ` set xs)"
  by (induction sep xs rule: join_str.induct) auto

lemma count_newlines:
  "\<forall>l \<in> set ls. LF \<notin> set l \<Longrightarrow>
     length (filter (\<lambda>c. c = LF) (concat (map (\<lambda>y. [LF] @ y) ls))) = length ls"
  by (induction ls) (auto simp: filter_empty_conv)

lemma render_newlines:
  assumes "\<forall>r \<in> set rows. \<forall>v \<in> set r. LF \<notin> set v"
  shows "length (filter (\<lambda>c. c = LF) (render rows)) = length rows - 1"
proof (cases rows)
  case Nil
  then show ?thesis by (simp add: render_def)
next
  case (Cons r rs)
  have comma: "LF \<notin> set '',''" by (simp add: LF_def)
  have free: "LF \<notin> set (join_str '','' x)" if "x \<in> set rows" for x
    using join_str_set [of "'',''" x] assms that comma by auto
  have "render rows = join_str '','' r @ concat (map (\<lambda>y. [LF] @ y) (map (join_str '','') rs))"
    using Cons by (simp add: render_def join_str_Cons_concat)
  moreover have "filter (\<lambda>c. c = LF) (join_str '','' r) = []"
    using free [of r] Cons by (auto simp: filter_empty_conv)
  moreover have "length (filter (\<lambda>c. c = LF)
                    (concat (map (\<lambda>y. [LF] @ y) (map (join_str '','') rs)))) = length rs"
    using count_newlines [of "map (join_str '','') rs"] free Cons by auto
  ultimately show ?thesis using Cons by simp
qed

lemma emitted_rows_no_LF:
  assumes "\<forall>x. LF \<notin> set (py_str bi x)"
  shows "\<forall>r \<in> set (emitted_rows bi cfg cols file_lines). \<forall>v \<in> set r. LF \<notin> set v"
proof (intro ballI)
  fix r v assume r: "r \<in> set (emitted_rows bi cfg cols file_lines)" and v: "v \<in> set r"
  have "r \<in> set (windows (threshold cfg cols) (value_stream bi cfg cols (start_index cfg) file_lines))"
    using r limit_take_subset [of "lines_to_build cfg" 0
        "windows (threshold cfg cols) (value_stream bi cfg cols (start_index cfg) file_lines)"]
    by (auto simp: emitted_rows_def)
  then have "set r \<subseteq> set (value_stream bi cfg cols (start_index cfg) file_lines)"
    by (rule windows_set)
  then have "v \<in> set (value_stream bi cfg cols (start_index cfg) file_lines)"
    using v by blast
  then show "LF \<notin> set v" using value_stream_no_LF [OF assms] by blast
qed

lemma digits_set: "set (digits n) \<subseteq> set ''0123456789''"
proof (induction n rule: digits.induct)
  case (1 n)
  have m: "''0123456789'' ! (n mod 10) \<in> set ''0123456789''" by (intro nth_mem) simp
  show ?case
  proof (cases "n < 10")
    case True
    then have "''0123456789'' ! n \<in> set ''0123456789''" by (intro nth_mem) simp
    then show ?thesis using True by (subst digits.simps) simp
  next
    case False
    then show ?thesis using 1 m by (subst digits.simps) simp
  qed
qed

lemma sample_py_str_no_LF: "\<forall>x. LF \<notin> set (py_str sample_builtins x)"
proof
  fix x
  have "LF \<notin> set ''0123456789''" "LF \<notin> set ''.''" by (simp_all add: LF_def)
  then show "LF \<notin> set (py_str sample_builtins x)"
    using digits_set [of "x div 10"] digits_set [of "x mod 10"]
    by (auto simp: sample_builtins_def)
qed

section \<open>The buffer between flushes\<close>

text \<open>
  Claim C2. With at least one column and a buffer size of at least 1, take the state in
  which \<open>create_dataset\<close> leaves the first \<open>k\<close> lines of any input: the run on the whole
  input passes through it. There the buffer is shorter than the number of columns times
  the buffer size and, unless the run has failed, its length is a multiple of the number of
  columns; extending it with the values of one more line never takes it beyond that
  product. The next pass of the loop is \<open>process_line\<close> on that state: when it succeeds,
  it has appended the values of the line if the line is sampled, and it has written the
  buffer as one more row, cleared it and counted the row exactly when the length then
  equals the product; when it fails, it has written and counted nothing. The output of
  that state consists of as many rows as were counted, each of exactly that many values,
  and unless the run has failed these are the rows expected of the first \<open>k\<close> lines.
\<close>

theorem buffer_invariant:
  assumes "cols \<noteq> []" and "1 \<le> buffer_size cfg"
    and "create_dataset bi cfg (take k file_lines) cols = (e, st)"
  shows "create_dataset bi cfg file_lines cols =
           (case e of
              Some err \<Rightarrow> (Some err, st)
            | None \<Rightarrow>
                dataset_loop bi cfg cols (start_index cfg + int (length (take k file_lines)))
                  (drop k file_lines) st)
       \<and> length (tmp_buffer st) < threshold cfg cols
       \<and> (e = None \<longrightarrow> length cols dvd length (tmp_buffer st))
       \<and> (\<forall>li vals e' buf.
             e = None \<and> build_phase bi cfg cols li vals (tmp_buffer st) = (e', buf) \<longrightarrow>
               length buf \<le> threshold cfg cols)
       \<and> (\<forall>buf s. flush_phase cfg cols buf s =
             (None,
              if length buf = threshold cfg cols
              then \<lparr>nb_lines_built = nb_lines_built s + 1, tmp_buffer = [],
                    output_file = (output_file s @ (if nb_lines_built s > 0 then [LF] else []))
                                    @ join_str '','' buf\<rparr>
              else s\<lparr>tmp_buffer := buf\<rparr>))
       \<and> (\<exists>rows. nb_lines_built st = length rows \<and> output_file st = render rows
              \<and> (\<forall>r \<in> set rows. length r = threshold cfg cols))
       \<and> (\<forall>li line rest.
             dataset_loop bi cfg cols li (line # rest) st =
               (if limit_reached (lines_to_build cfg) (nb_lines_built st) then (None, st)
                else case process_line bi cfg cols li line st of
                       (Some err, s) \<Rightarrow> (Some err, s)
                     | (None, s) \<Rightarrow> dataset_loop bi cfg cols (li + 1) rest s))
       \<and> (\<forall>li line st1.
             process_line bi cfg cols li line st = (None, st1) \<longrightarrow>
               st1 =
                 (if length (tmp_buffer st
                       @ (if li mod downsample_factor cfg = 0
                          then line_cells bi cfg cols line else []))
                     = threshold cfg cols
                  then \<lparr>nb_lines_built = nb_lines_built st + 1, tmp_buffer = [],
                        output_file =
                          (output_file st @ (if nb_lines_built st > 0 then [LF] else []))
                            @ join_str '',''
                                (tmp_buffer st
                                  @ (if li mod downsample_factor cfg = 0
                                     then line_cells bi cfg cols line else []))\<rparr>
                  else st\<lparr>tmp_buffer :=
                            tmp_buffer st
                              @ (if li mod downsample_factor cfg = 0
                                 then line_cells bi cfg cols line else [])\<rparr>))
       \<and> (\<forall>li line err st1.
             process_line bi cfg cols li line st = (Some err, st1) \<longrightarrow>
               nb_lines_built st1 = nb_lines_built st \<and> output_file st1 = output_file st)
       \<and> (e = None \<longrightarrow>
             nb_lines_built st = length (emitted_rows bi cfg cols (take k file_lines))
             \<and> output_file st = render (emitted_rows bi cfg cols (take k file_lines)))
       \<and> (\<forall>r \<in> set (emitted_rows bi cfg cols (take k file_lines)).
             length r = threshold cfg cols)"
proof -
  have a: "create_dataset bi cfg file_lines cols =
           (case e of
              Some err \<Rightarrow> (Some err, st)
            | None \<Rightarrow>
                dataset_loop bi cfg cols (start_index cfg + int (length (take k file_lines)))
                  (drop k file_lines) st)"
  proof -
    have "dataset_loop bi cfg cols (start_index cfg) (take k file_lines @ drop k file_lines) initial_state
          = (case dataset_loop bi cfg cols (start_index cfg) (take k file_lines) initial_state of
               (Some err, s) \<Rightarrow> (Some err, s)
             | (None, s) \<Rightarrow>
                 dataset_loop bi cfg cols (start_index cfg + int (length (take k file_lines)))
                   (drop k file_lines) s)"
      by (rule dataset_loop_append)
    moreover have "dataset_loop bi cfg cols (start_index cfg) (take k file_lines) initial_state = (e, st)"
      using assms(3) by (simp add: create_dataset_def start_index_def)
    ultimately show ?thesis
      by (cases e) (simp_all add: create_dataset_def start_index_def)
  qed
  note inv = create_dataset_any [OF assms(3,1,2)]
  have b: "length (tmp_buffer st) < threshold cfg cols" using inv by blast
  have c: "e = None \<longrightarrow> length cols dvd length (tmp_buffer st)" using inv by blast
  have d: "length buf \<le> threshold cfg cols"
    if "e = None" "build_phase bi cfg cols li vals (tmp_buffer st) = (e', buf)" for li vals e' buf
  proof -
    have dv: "length cols dvd length (tmp_buffer st)" using c that(1) by simp
    from build_phase_any [OF that(2)] obtain j where "j \<le> length cols"
      "length buf = length (tmp_buffer st) + j" by blast
    then show ?thesis using dvd_step_le [OF dv threshold_dvd b] by simp
  qed
  have f: "\<exists>rows. nb_lines_built st = length rows \<and> output_file st = render rows
              \<and> (\<forall>r \<in> set rows. length r = threshold cfg cols)"
    using inv by blast
  have g: "\<forall>li line rest.
             dataset_loop bi cfg cols li (line # rest) st =
               (if limit_reached (lines_to_build cfg) (nb_lines_built st) then (None, st)
                else case process_line bi cfg cols li line st of
                       (Some err, s) \<Rightarrow> (Some err, s)
                     | (None, s) \<Rightarrow> dataset_loop bi cfg cols (li + 1) rest s)"
    by simp
  have h: "\<forall>li line st1.
             process_line bi cfg cols li line st = (None, st1) \<longrightarrow>
               st1 =
                 (if length (tmp_buffer st
                       @ (if li mod downsample_factor cfg = 0
                          then line_cells bi cfg cols line else []))
                     = threshold cfg cols
                  then \<lparr>nb_lines_built = nb_lines_built st + 1, tmp_buffer = [],
                        output_file =
                          (output_file st @ (if nb_lines_built st > 0 then [LF] else []))
                            @ join_str '',''
                                (tmp_buffer st
                                  @ (if li mod downsample_factor cfg = 0
                                     then line_cells bi cfg cols line else []))\<rparr>
                  else st\<lparr>tmp_buffer :=
                            tmp_buffer st
                              @ (if li mod downsample_factor cfg = 0
                                 then line_cells bi cfg cols line else [])\<rparr>)"
    using process_line_ok [OF _ assms(1,2)] by blast
  have i: "\<forall>li line err st1.
             process_line bi cfg cols li line st = (Some err, st1) \<longrightarrow>
               nb_lines_built st1 = nb_lines_built st \<and> output_file st1 = output_file st"
    using process_line_error by blast
  have j: "e = None \<longrightarrow>
             nb_lines_built st = length (emitted_rows bi cfg cols (take k file_lines))
             \<and> output_file st = render (emitted_rows bi cfg cols (take k file_lines))"
    using create_dataset_ok(1,2) [OF _ assms(1,2)] assms(3) by blast
  have l: "\<forall>r \<in> set (emitted_rows bi cfg cols (take k file_lines)).
             length r = threshold cfg cols"
    using emitted_rows_lengths by blast
  have fl: "\<forall>buf s. flush_phase cfg cols buf s =
             (None,
              if length buf = threshold cfg cols
              then \<lparr>nb_lines_built = nb_lines_built s + 1, tmp_buffer = [],
                    output_file = (output_file s @ (if nb_lines_built s > 0 then [LF] else []))
                                    @ join_str '','' buf\<rparr>
              else s\<lparr>tmp_buffer := buf\<rparr>)"
    using flush_phase_threshold [OF assms(1,2)] by blast
  have dd: "\<forall>li vals e' buf.
             e = None \<and> build_phase bi cfg cols li vals (tmp_buffer st) = (e', buf) \<longrightarrow>
               length buf \<le> threshold cfg cols"
    using d by blast
  show ?thesis
    by (intro conjI) (rule a b c dd fl f g h i j l)+
qed

theorem buffer_invariant_witness:
  "create_dataset sample_builtins sample_config (take 2 sample_lines) [0, 1]
     = (None, \<lparr>nb_lines_built = 0, tmp_buffer = [''1.0'', ''4.5'', ''2.0'', ''5.5''], output_file = []\<rparr>)
   \<and> threshold sample_config [0, 1] = 6
   \<and> create_dataset sample_builtins sample_config sample_lines [0, 1]
     = dataset_loop sample_builtins sample_config [0, 1] 3 (drop 2 sample_lines)
         \<lparr>nb_lines_built = 0, tmp_buffer = [''1.0'', ''4.5'', ''2.0'', ''5.5''], output_file = []\<rparr>
   \<and> create_dataset sample_builtins sample_config sample_lines [0, 1]
     = (None, \<lparr>nb_lines_built = 1, tmp_buffer = [''7.0'', ''8.0''],
               output_file = ''1.0,4.5,2.0,5.5,3.0,6.5''\<rparr>)
   \<and> process_line sample_builtins sample_config [0, 1] 3 (''3.0,6.5'' @ [LF])
        \<lparr>nb_lines_built = 0, tmp_buffer = [''1.0'', ''4.5'', ''2.0'', ''5.5''], output_file = []\<rparr>
     = (None, \<lparr>nb_lines_built = 1, tmp_buffer = [],
               output_file = ''1.0,4.5,2.0,5.5,3.0,6.5''\<rparr>)
   \<and> render (emitted_rows sample_builtins sample_config [0, 1] (take 2 sample_lines)) = []"
proof -
  have h1: "[0, 1] \<noteq> ([]::int list)" by simp
  have h2: "1 \<le> buffer_size sample_config" by (simp add: sample_config_def)
  have h3: "create_dataset sample_builtins sample_config (take 2 sample_lines) [0, 1]
     = (None, \<lparr>nb_lines_built = 0, tmp_buffer = [''1.0'', ''4.5'', ''2.0'', ''5.5''], output_file = []\<rparr>)"
    by code_simp
  have t: "threshold sample_config [0, 1] = 6" by code_simp
  have s: "start_index sample_config + int (length (take 2 sample_lines)) = 3" by code_simp
  have f: "create_dataset sample_builtins sample_config sample_lines [0, 1]
     = (None, \<lparr>nb_lines_built = 1, tmp_buffer = [''7.0'', ''8.0''],
               output_file = ''1.0,4.5,2.0,5.5,3.0,6.5''\<rparr>)"
    by code_simp
  have p: "process_line sample_builtins sample_config [0, 1] 3 (''3.0,6.5'' @ [LF])
        \<lparr>nb_lines_built = 0, tmp_buffer = [''1.0'', ''4.5'', ''2.0'', ''5.5''], output_file = []\<rparr>
     = (None, \<lparr>nb_lines_built = 1, tmp_buffer = [],
               output_file = ''1.0,4.5,2.0,5.5,3.0,6.5''\<rparr>)"
    by code_simp
  note inv = buffer_invariant [OF h1 h2 h3]
  have c1: "create_dataset sample_builtins sample_config sample_lines [0, 1]
     = dataset_loop sample_builtins sample_config [0, 1] 3 (drop 2 sample_lines)
         \<lparr>nb_lines_built = 0, tmp_buffer = [''1.0'', ''4.5'', ''2.0'', ''5.5''], output_file = []\<rparr>"
    using inv [THEN conjunct1] s by simp
  have c2: "output_file \<lparr>nb_lines_built = 0, tmp_buffer = [''1.0'', ''4.5'', ''2.0'', ''5.5''],
                          output_file = []\<rparr>
              = render (emitted_rows sample_builtins sample_config [0, 1] (take 2 sample_lines))"
    using inv by blast
  show ?thesis using h3 t c1 f p c2 by simp
qed

section \<open>The rows written and their number\<close>

text \<open>
  Claim C3. When \<open>create_dataset\<close> ends without error (at least one column, buffer size
  at least 1), the output file is the rendering of the rows expected of the input, each
  of columns times buffer size values, and the counter is their number. These rows are
  all the complete windows of the values of the sampled lines when \<open>LINES_TO_BUILD\<close>
  is not an integer, and the first \<open>L\<close> of them when it is the integer \<open>L\<close>; so their
  number is the number of complete windows available in the first case and the smaller
  of that number and \<open>L\<close> in the second (a limit below 0 counting as 0). When
  \<open>str\<close> of a float holds no newline, the file holds one newline less than rows. Once the
  counter has reached an integer limit the loop stops without reading another line.
\<close>

theorem row_count:
  assumes "create_dataset bi cfg file_lines cols = (None, st')"
    and "cols \<noteq> []" and "1 \<le> buffer_size cfg"
  shows "(lines_to_build cfg = AllLines \<longrightarrow>
            nb_lines_built st' = available_windows cfg file_lines)
       \<and> (\<forall>l. lines_to_build cfg = Lines l \<and> 0 \<le> l \<longrightarrow>
            int (nb_lines_built st') = min l (int (available_windows cfg file_lines)))
       \<and> (\<forall>l. lines_to_build cfg = Lines l \<longrightarrow>
            nb_lines_built st' = min (nat l) (available_windows cfg file_lines))
       \<and> (\<forall>l s li rest. lines_to_build cfg = Lines l \<and> l \<le> int (nb_lines_built s) \<longrightarrow>
            dataset_loop bi cfg cols li rest s = (None, s))
       \<and> output_file st' = render (emitted_rows bi cfg cols file_lines)
       \<and> length (emitted_rows bi cfg cols file_lines) = nb_lines_built st'
       \<and> (\<forall>r \<in> set (emitted_rows bi cfg cols file_lines). length r = threshold cfg cols)
       \<and> length (windows (threshold cfg cols)
                   (value_stream bi cfg cols (start_index cfg) file_lines))
           = available_windows cfg file_lines
       \<and> (lines_to_build cfg = AllLines \<longrightarrow>
            emitted_rows bi cfg cols file_lines =
              windows (threshold cfg cols)
                (value_stream bi cfg cols (start_index cfg) file_lines))
       \<and> (\<forall>l. lines_to_build cfg = Lines l \<longrightarrow>
            emitted_rows bi cfg cols file_lines =
              take (nat l)
                (windows (threshold cfg cols)
                   (value_stream bi cfg cols (start_index cfg) file_lines)))
       \<and> ((\<forall>x. LF \<notin> set (py_str bi x)) \<longrightarrow>
            length (filter (\<lambda>c. c = LF) (output_file st')) = nb_lines_built st' - 1)"
proof -
  have n: "nb_lines_built st' =
           (case lines_to_build cfg of
              AllLines \<Rightarrow> available_windows cfg file_lines
            | Lines l \<Rightarrow> min (nat l) (available_windows cfg file_lines))"
    using create_dataset_ok(1) [OF assms] length_emitted_rows [OF assms(2,3), of bi file_lines]
    by simp
  have a: "lines_to_build cfg = AllLines \<longrightarrow> nb_lines_built st' = available_windows cfg file_lines"
    using n by simp
  have c: "\<forall>l. lines_to_build cfg = Lines l \<longrightarrow>
            nb_lines_built st' = min (nat l) (available_windows cfg file_lines)"
    using n by simp
  have b: "\<forall>l. lines_to_build cfg = Lines l \<and> 0 \<le> l \<longrightarrow>
            int (nb_lines_built st') = min l (int (available_windows cfg file_lines))"
    using c by auto
  have d: "\<forall>l s li rest. lines_to_build cfg = Lines l \<and> l \<le> int (nb_lines_built s) \<longrightarrow>
            dataset_loop bi cfg cols li rest s = (None, s)"
    by (auto intro: dataset_loop_stopped simp: limit_reached_def)
  have o: "output_file st' = render (emitted_rows bi cfg cols file_lines)"
    using assms by (rule create_dataset_ok(2))
  have k: "length (emitted_rows bi cfg cols file_lines) = nb_lines_built st'"
    using create_dataset_ok(1) [OF assms] by simp
  have r: "\<forall>r \<in> set (emitted_rows bi cfg cols file_lines). length r = threshold cfg cols"
    using emitted_rows_lengths by blast
  have w: "length (windows (threshold cfg cols)
                   (value_stream bi cfg cols (start_index cfg) file_lines))
           = available_windows cfg file_lines"
    using assms(2,3) by (rule length_stream_windows)
  have ea: "lines_to_build cfg = AllLines \<longrightarrow>
            emitted_rows bi cfg cols file_lines =
              windows (threshold cfg cols)
                (value_stream bi cfg cols (start_index cfg) file_lines)"
    by (simp add: emitted_rows_def limit_take_def)
  have el: "\<forall>l. lines_to_build cfg = Lines l \<longrightarrow>
            emitted_rows bi cfg cols file_lines =
              take (nat l)
                (windows (threshold cfg cols)
                   (value_stream bi cfg cols (start_index cfg) file_lines))"
    by (simp add: emitted_rows_def limit_take_def)
  have nl: "(\<forall>x. LF \<notin> set (py_str bi x)) \<longrightarrow>
            length (filter (\<lambda>c. c = LF) (output_file st')) = nb_lines_built st' - 1"
  proof
    assume "\<forall>x. LF \<notin> set (py_str bi x)"
    then have "\<forall>r \<in> set (emitted_rows bi cfg cols file_lines). \<forall>v \<in> set r. LF \<notin> set v"
      by (rule emitted_rows_no_LF)
    then show "length (filter (\<lambda>c. c = LF) (output_file st')) = nb_lines_built st' - 1"
      using render_newlines [of "emitted_rows bi cfg cols file_lines"] o k by simp
  qed
  show ?thesis
    by (intro conjI) (rule a b c d o k r w ea el nl)+
qed

theorem row_count_witness:
  "create_dataset sample_builtins two_rows_config sample_lines [0, 1]
     = (None, \<lparr>nb_lines_built = 2, tmp_buffer = [], output_file = ''1.0,4.5'' @ [LF] @ ''2.0,5.5''\<rparr>)
   \<and> available_windows two_rows_config sample_lines = 4
   \<and> available_windows sample_config sample_lines = 1
   \<and> nb_lines_built (snd (create_dataset sample_builtins sample_config sample_lines [0, 1])) = 1
   \<and> render (emitted_rows sample_builtins two_rows_config [0, 1] sample_lines)
       = ''1.0,4.5'' @ [LF] @ ''2.0,5.5''
   \<and> length (filter (\<lambda>c. c = LF) (''1.0,4.5'' @ [LF] @ ''2.0,5.5'')) = 2 - 1
   \<and> emitted_rows sample_builtins sample_config [0, 1] sample_lines
       = [[''1.0'', ''4.5'', ''2.0'', ''5.5'', ''3.0'', ''6.5'']]"
proof -
  have h1: "create_dataset sample_builtins two_rows_config sample_lines [0, 1]
     = (None, \<lparr>nb_lines_built = 2, tmp_buffer = [], output_file = ''1.0,4.5'' @ [LF] @ ''2.0,5.5''\<rparr>)"
    by code_simp
  have h2: "[0, 1] \<noteq> ([]::int list)" by simp
  have h3: "1 \<le> buffer_size two_rows_config" "1 \<le> buffer_size sample_config"
    by (simp_all add: two_rows_config_def sample_config_def)
  have l: "lines_to_build two_rows_config = Lines 2" "lines_to_build sample_config = AllLines"
    by (simp_all add: two_rows_config_def sample_config_def)
  have a: "available_windows two_rows_config sample_lines = 4"
    "available_windows sample_config sample_lines = 1"
    by code_simp+
  have g: "create_dataset sample_builtins sample_config sample_lines [0, 1]
     = (None, \<lparr>nb_lines_built = 1, tmp_buffer = [''7.0'', ''8.0''],
               output_file = ''1.0,4.5,2.0,5.5,3.0,6.5''\<rparr>)"
    by code_simp
  have e: "emitted_rows sample_builtins sample_config [0, 1] sample_lines
       = [[''1.0'', ''4.5'', ''2.0'', ''5.5'', ''3.0'', ''6.5'']]"
    by code_simp
  note t1 = row_count [OF h1 h2 h3(1)]
  note t2 = row_count [OF g h2 h3(2)]
  have o': "output_file \<lparr>nb_lines_built = 2, tmp_buffer = [],
                           output_file = ''1.0,4.5'' @ [LF] @ ''2.0,5.5''\<rparr>
              = render (emitted_rows sample_builtins two_rows_config [0, 1] sample_lines)"
    using t1 by blast
  have o: "render (emitted_rows sample_builtins two_rows_config [0, 1] sample_lines)
       = ''1.0,4.5'' @ [LF] @ ''2.0,5.5''"
    using o' by simp
  have n': "length (filter (\<lambda>c. c = LF)
               (output_file \<lparr>nb_lines_built = 2, tmp_buffer = [],
                              output_file = ''1.0,4.5'' @ [LF] @ ''2.0,5.5''\<rparr>))
             = nb_lines_built \<lparr>nb_lines_built = 2, tmp_buffer = [],
                               output_file = ''1.0,4.5'' @ [LF] @ ''2.0,5.5''\<rparr> - 1"
    using t1 sample_py_str_no_LF by blast
  have n: "length (filter (\<lambda>c. c = LF) (''1.0,4.5'' @ [LF] @ ''2.0,5.5'')) = 2 - 1"
    using n' by (simp only: state.simps)
  have m': "nb_lines_built \<lparr>nb_lines_built = 1, tmp_buffer = [''7.0'', ''8.0''],
               output_file = ''1.0,4.5,2.0,5.5,3.0,6.5''\<rparr>
              = available_windows sample_config sample_lines"
    using t2 l(2) by blast
  have m: "nb_lines_built (snd (create_dataset sample_builtins sample_config sample_lines [0, 1])) = 1"
    using m' a(2) g by simp
  show ?thesis using h1 a o n m e by blast
qed

end
